theory Spec2Isabelle
  imports Complex_Main "HOL-Library.Multiset"
begin

section \<open>Data model of the flakiness analysis\<close>

text \<open>
  The development embeds \<^verbatim>\<open>gitlab_pipeline_performance_with_retry.py\<close>.
  A job and a pipeline are the JSON objects of the GitLab API; the analysis reads the
  keys \<^verbatim>\<open>id\<close>, \<^verbatim>\<open>name\<close> and \<^verbatim>\<open>status\<close> of a job and the keys
  \<^verbatim>\<open>id\<close> and \<^verbatim>\<open>ref\<close> of a pipeline (the latter through \<^verbatim>\<open>.get\<close>, so it may
  be absent). Python integers are unbounded, hence \<open>int\<close>.
\<close>

record job =
  job_id :: int
  job_name :: string
  job_status :: string

record pipeline =
  p_id :: int
  p_ref :: "string option"

text \<open>
  The exceptions the program can raise. \<^verbatim>\<open>HTTPError\<close> (raised by
  \<^verbatim>\<open>raise_for_status\<close>) is a subclass of \<^verbatim>\<open>RequestException\<close>;
  \<^verbatim>\<open>ValueError\<close> (raised by \<^verbatim>\<open>int\<close> and \<^verbatim>\<open>time.sleep\<close>),
  \<^verbatim>\<open>OverflowError\<close> and \<^verbatim>\<open>OSError\<close> (raised by \<^verbatim>\<open>time.sleep\<close>) and
  \<^verbatim>\<open>ZeroDivisionError\<close> are not.
\<close>

datatype error =
    RequestException string | HTTPError int | ValueError | OverflowError | OSError
  | ZeroDivisionError

fun is_request_exception :: "error \<Rightarrow> bool" where
  "is_request_exception (RequestException msg) = True"
| "is_request_exception (HTTPError code) = True"
| "is_request_exception ValueError = False"
| "is_request_exception OverflowError = False"
| "is_request_exception OSError = False"
| "is_request_exception ZeroDivisionError = False"

text \<open>The dictionary returned by \<^verbatim>\<open>fetch_pipeline_jobs_with_metadata\<close>. The key
  \<^verbatim>\<open>error\<close> holds \<^verbatim>\<open>str(e)\<close> in the source; the model keeps the exception value.\<close>

record fetch_result =
  r_pipeline_id :: int
  r_pipeline :: pipeline
  r_jobs :: "job list"
  r_success :: bool
  r_error :: "error option"

text \<open>One entry of \<^verbatim>\<open>job_stats\<close> (the value built by the \<^verbatim>\<open>defaultdict\<close>'s factory).\<close>

record job_stat =
  total_job_groups :: int
  flakey_occurrences :: int
  legitimate_failures :: int
  clean_successes :: int
  other_statuses :: int
  total_retry_attempts :: int
  flakey_retry_attempts :: int
  legitimate_retry_attempts :: int
  flakey_pipelines :: "int list"

definition default_stat :: job_stat where
  "default_stat = \<lparr>total_job_groups = 0, flakey_occurrences = 0, legitimate_failures = 0,
     clean_successes = 0, other_statuses = 0, total_retry_attempts = 0,
     flakey_retry_attempts = 0, legitimate_retry_attempts = 0, flakey_pipelines = []\<rparr>"

text \<open>One entry of \<^verbatim>\<open>flakey_details\<close>.\<close>

record flakey_detail =
  d_pipeline_id :: int
  d_pipeline_ref :: string
  d_job_name :: string
  d_num_attempts :: int
  d_statuses :: "string list"

text \<open>The calls of \<^verbatim>\<open>logging\<close> inside the analysis loop, in the order of the source.\<close>

datatype log_event =
    Log_error_fetching int "error option"
  | Log_clean_success int string
  | Log_flakey int string int "string list"
  | Log_legitimate_failure int string int
  | Log_other_statuses int string "string list"
  | Log_multiple_success int string "string list"
  | Log_unexpected int string "string list"

record analysis_state =
  job_stats :: "(string \<times> job_stat) list"
  flakey_details :: "flakey_detail list"
  log :: "log_event list"

section \<open>Dictionaries with a default\<close>

text \<open>
  A Python \<^verbatim>\<open>dict\<close> keeps its keys in insertion order, so \<^verbatim>\<open>job_stats\<close> and
  \<^verbatim>\<open>jobs_by_name\<close> are association lists. \<open>dd_update d k f m\<close> is the statement
  \<^verbatim>\<open>m[k] = f(m[k])\<close> on a \<^verbatim>\<open>defaultdict\<close> whose factory returns \<open>d\<close>: a missing key
  is appended with the default first.
\<close>

fun dd_update :: "'v \<Rightarrow> 'k \<Rightarrow> ('v \<Rightarrow> 'v) \<Rightarrow> ('k \<times> 'v) list \<Rightarrow> ('k \<times> 'v) list" where
  "dd_update d k f [] = [(k, f d)]"
| "dd_update d k f ((k', v) # m) =
     (if k' = k then (k', f v) # m else (k', v) # dd_update d k f m)"

definition dd_get :: "'v \<Rightarrow> ('k \<times> 'v) list \<Rightarrow> 'k \<Rightarrow> 'v" where
  "dd_get d m k = (case map_of m k of None \<Rightarrow> d | Some v \<Rightarrow> v)"

section \<open>The reliability classifier\<close>

text \<open>Lines 317 to 319: \<^verbatim>\<open>jobs_by_name[job['name']].append(job)\<close> for every job.\<close>

definition group_jobs_by_name :: "job list \<Rightarrow> (string \<times> job list) list" where
  "group_jobs_by_name jobs =
     foldl (\<lambda>m j. dd_update [] (job_name j) (\<lambda>js. js @ [j]) m) [] jobs"

text \<open>
  The \<^verbatim>\<open>if\<close>/\<^verbatim>\<open>elif\<close> chain of lines 344 to 382 takes one of six branches; the
  branch is a function of the sorted \<^verbatim>\<open>job_list\<close>. The four verdicts are the four
  counters the branches increment.
\<close>

datatype branch =
    Clean_first_try | Flakey_test | Legitimate_fail | Only_other | Multiple_success | Unexpected

datatype verdict = CleanSuccess | Flaky | LegitimateFailure | Other

definition classify :: "job list \<Rightarrow> branch" where
  "classify job_list =
     (let statuses = map job_status job_list;
          num_attempts = int (length job_list);
          has_success = (''success'' \<in> set statuses);
          has_failure = (''failed'' \<in> set statuses);
          only_other_statuses = (\<not> has_success \<and> \<not> has_failure)
      in if num_attempts = 1 \<and> job_status (hd job_list) = ''success'' then Clean_first_try
         else if has_failure \<and> has_success then Flakey_test
         else if has_failure \<and> \<not> has_success then Legitimate_fail
         else if only_other_statuses then Only_other
         else if has_success \<and> \<not> has_failure \<and> num_attempts > 1 then Multiple_success
         else Unexpected)"

fun verdict_of :: "branch \<Rightarrow> verdict" where
  "verdict_of Clean_first_try = CleanSuccess"
| "verdict_of Flakey_test = Flaky"
| "verdict_of Legitimate_fail = LegitimateFailure"
| "verdict_of Only_other = Other"
| "verdict_of Multiple_success = CleanSuccess"
| "verdict_of Unexpected = Other"

definition stats_update :: "string \<Rightarrow> (job_stat \<Rightarrow> job_stat) \<Rightarrow> analysis_state \<Rightarrow> analysis_state" where
  "stats_update name f st = st\<lparr>job_stats := dd_update default_stat name f (job_stats st)\<rparr>"

definition log_append :: "log_event \<Rightarrow> analysis_state \<Rightarrow> analysis_state" where
  "log_append e st = st\<lparr>log := log st @ [e]\<rparr>"

text \<open>The effects of each branch (lines 344 to 382), on the state after lines 330 and 335.\<close>

fun apply_branch ::
  "branch \<Rightarrow> pipeline \<Rightarrow> int \<Rightarrow> string \<Rightarrow> int \<Rightarrow> string list \<Rightarrow> analysis_state \<Rightarrow> analysis_state"
where
  "apply_branch Clean_first_try pipeline pid name num_attempts statuses st =
     log_append (Log_clean_success pid name)
       (stats_update name (\<lambda>s. s\<lparr>clean_successes := clean_successes s + 1\<rparr>) st)"
| "apply_branch Flakey_test pipeline pid name num_attempts statuses st =
     (let st1 = stats_update name (\<lambda>s. s\<lparr>flakey_occurrences := flakey_occurrences s + 1\<rparr>) st;
          st2 = stats_update name
                  (\<lambda>s. s\<lparr>flakey_retry_attempts := flakey_retry_attempts s + (num_attempts - 1)\<rparr>) st1;
          st3 = stats_update name (\<lambda>s. s\<lparr>flakey_pipelines := flakey_pipelines s @ [pid]\<rparr>) st2;
          st4 = st3\<lparr>flakey_details := flakey_details st3 @
                  [\<lparr>d_pipeline_id = pid,
                    d_pipeline_ref = (case p_ref pipeline of None \<Rightarrow> ''unknown'' | Some r \<Rightarrow> r),
                    d_job_name = name,
                    d_num_attempts = num_attempts,
                    d_statuses = statuses\<rparr>]\<rparr>
      in log_append (Log_flakey pid name num_attempts statuses) st4)"
| "apply_branch Legitimate_fail pipeline pid name num_attempts statuses st =
     (let st1 = stats_update name (\<lambda>s. s\<lparr>legitimate_failures := legitimate_failures s + 1\<rparr>) st;
          st2 = stats_update name
                  (\<lambda>s. s\<lparr>legitimate_retry_attempts :=
                            legitimate_retry_attempts s + (num_attempts - 1)\<rparr>) st1
      in log_append (Log_legitimate_failure pid name num_attempts) st2)"
| "apply_branch Only_other pipeline pid name num_attempts statuses st =
     log_append (Log_other_statuses pid name statuses)
       (stats_update name (\<lambda>s. s\<lparr>other_statuses := other_statuses s + 1\<rparr>) st)"
| "apply_branch Multiple_success pipeline pid name num_attempts statuses st =
     log_append (Log_multiple_success pid name statuses)
       (stats_update name (\<lambda>s. s\<lparr>clean_successes := clean_successes s + 1\<rparr>) st)"
| "apply_branch Unexpected pipeline pid name num_attempts statuses st =
     log_append (Log_unexpected pid name statuses)
       (stats_update name (\<lambda>s. s\<lparr>other_statuses := other_statuses s + 1\<rparr>) st)"

text \<open>
  The body of the loop over \<^verbatim>\<open>jobs_by_name.items()\<close> (lines 322 to 382).
  \<^verbatim>\<open>list.sort\<close> is stable, as \<open>sort_key\<close> is.
\<close>

definition process_group ::
  "pipeline \<Rightarrow> int \<Rightarrow> analysis_state \<Rightarrow> string \<times> job list \<Rightarrow> analysis_state" where
  "process_group pipeline pid st g =
     (let name = fst g;
          job_list = sort_key job_id (snd g);
          statuses = map job_status job_list;
          st1 = stats_update name (\<lambda>s. s\<lparr>total_job_groups := total_job_groups s + 1\<rparr>) st;
          num_attempts = int (length job_list);
          retry_count = num_attempts - 1;
          st2 = stats_update name
                  (\<lambda>s. s\<lparr>total_retry_attempts := total_retry_attempts s + retry_count\<rparr>) st1
      in apply_branch (classify job_list) pipeline pid name num_attempts statuses st2)"

text \<open>The body of the loop over \<^verbatim>\<open>pipeline_results\<close> (lines 307 to 382).\<close>

definition analyze_result :: "analysis_state \<Rightarrow> fetch_result \<Rightarrow> analysis_state" where
  "analyze_result st result =
     (if \<not> r_success result
      then log_append (Log_error_fetching (r_pipeline_id result) (r_error result)) st
      else foldl (process_group (r_pipeline result) (r_pipeline_id result)) st
             (group_jobs_by_name (r_jobs result)))"

definition initial_analysis :: analysis_state where
  "initial_analysis = \<lparr>job_stats = [], flakey_details = [], log = []\<rparr>"

definition analyze_results :: "fetch_result list \<Rightarrow> analysis_state" where
  "analyze_results pipeline_results = foldl analyze_result initial_analysis pipeline_results"

text \<open>What the function returns (line 385): \<^verbatim>\<open>job_stats, flakey_details\<close>.\<close>

definition analysis_return ::
  "fetch_result list \<Rightarrow> (string \<times> job_stat) list \<times> flakey_detail list" where
  "analysis_return pipeline_results =
     (let st = analyze_results pipeline_results in (job_stats st, flakey_details st))"

section \<open>The report's totals\<close>

text \<open>
  \<^verbatim>\<open>write_flakiness_analysis_stats\<close> sums the counters over \<^verbatim>\<open>job_stats.values()\<close>
  (lines 404 to 408 and 498 to 509) and derives two rates (lines 418 to 427). The
  quotient of two Python integers is a float; the model keeps the exact rational it
  rounds. Line 413 divides by \<^verbatim>\<open>total_job_groups\<close> before the guard of line 418, so
  an empty \<^verbatim>\<open>job_stats\<close> raises \<^verbatim>\<open>ZeroDivisionError\<close>.
\<close>

definition total_of :: "(job_stat \<Rightarrow> int) \<Rightarrow> (string \<times> job_stat) list \<Rightarrow> int" where
  "total_of field stats = sum_list (map (\<lambda>kv. field (snd kv)) stats)"

definition overall_rates :: "(string \<times> job_stat) list \<Rightarrow> error + rat \<times> rat" where
  "overall_rates stats =
     (let total_job_groups = total_of total_job_groups stats;
          total_flakey = total_of flakey_occurrences stats;
          total_clean = total_of clean_successes stats
      in if total_job_groups = 0 then Inl ZeroDivisionError
         else let flakiness_rate = (of_int total_flakey / of_int total_job_groups) * 100;
                  non_legitimate_total = total_clean + total_flakey;
                  reliability_rate =
                    (if non_legitimate_total > 0
                     then (of_int total_clean / of_int non_legitimate_total) * 100
                     else 100)
              in Inr (flakiness_rate, reliability_rate))"

text \<open>The counters of one entry without the list \<^verbatim>\<open>flakey_pipelines\<close>, and the
  eight sums of the report.\<close>

definition counts :: "job_stat \<Rightarrow> int \<times> int \<times> int \<times> int \<times> int \<times> int \<times> int \<times> int" where
  "counts s = (total_job_groups s, flakey_occurrences s, legitimate_failures s,
     clean_successes s, other_statuses s, total_retry_attempts s,
     flakey_retry_attempts s, legitimate_retry_attempts s)"

definition totals ::
  "(string \<times> job_stat) list \<Rightarrow> int \<times> int \<times> int \<times> int \<times> int \<times> int \<times> int \<times> int" where
  "totals stats = (total_of total_job_groups stats, total_of flakey_occurrences stats,
     total_of legitimate_failures stats, total_of clean_successes stats,
     total_of other_statuses stats, total_of total_retry_attempts stats,
     total_of flakey_retry_attempts stats, total_of legitimate_retry_attempts stats)"

section \<open>The resilient fetcher\<close>

text \<open>
  A response carries the status code, the headers and the decoded JSON array. The server
  is a function of the number of the request (counted in the state), the URL and the
  query parameters; \<^verbatim>\<open>requests.get\<close> either raises a \<^verbatim>\<open>RequestException\<close>
  (connection error, timeout) or returns a response. The state holds what the fetcher
  changes: the count of requests, the arguments of \<^verbatim>\<open>time.sleep\<close> in order, and the
  two globals of \<^verbatim>\<open>update_rate_limit_info\<close>. The log calls of the fetcher have no
  effect on its control flow and are left out.
\<close>

record 'a response =
  status_code :: int
  headers :: "string \<rightharpoonup> string"
  json :: "'a list"

datatype 'a get_result = Raises string | Responds "'a response"

type_synonym params = "(string \<times> string) list"

type_synonym 'a server = "nat \<Rightarrow> string \<Rightarrow> params option \<Rightarrow> 'a get_result"

record net_state =
  requests_made :: nat
  sleeps :: "int list"
  rate_limit_remaining :: "int option"
  rate_limit_reset :: "int option"

definition initial_net :: net_state where
  "initial_net = \<lparr>requests_made = 0, sleeps = [], rate_limit_remaining = None,
     rate_limit_reset = None\<rparr>"

definition GITLAB_URL :: string where
  "GITLAB_URL = ''https://gitlab.com''"

definition RETRY_ATTEMPTS :: nat where
  "RETRY_ATTEMPTS = 3"

definition RETRY_BACKOFF :: int where
  "RETRY_BACKOFF = 2"

subsection \<open>Python's \<^verbatim>\<open>int\<close> of a string and \<^verbatim>\<open>str\<close> of an integer\<close>

text \<open>
  \<^verbatim>\<open>int(s)\<close> strips white space, reads an optional sign and decimal digits, with single
  underscores allowed between digits; anything else raises \<^verbatim>\<open>ValueError\<close>
  (\<open>None\<close> here). Header values are Latin-1 strings; the white space that
  \<^verbatim>\<open>int\<close> strips from them is tab to carriage return, the space, and the
  characters 0x85 and 0xA0 (not the separators 0x1C to 0x1F).
\<close>

definition is_space :: "char \<Rightarrow> bool" where
  "is_space c = (let n = (of_char c :: nat)
                 in (9 \<le> n \<and> n \<le> 13) \<or> n = 32 \<or> n = 133 \<or> n = 160)"

definition is_digit :: "char \<Rightarrow> bool" where
  "is_digit c = (let n = (of_char c :: nat) in 48 \<le> n \<and> n \<le> 57)"

definition digit_value :: "char \<Rightarrow> nat" where
  "digit_value c = of_char c - 48"

definition strip :: "string \<Rightarrow> string" where
  "strip s = rev (dropWhile is_space (rev (dropWhile is_space s)))"

fun digits_value :: "nat \<Rightarrow> string \<Rightarrow> nat option" where
  "digits_value acc [] = Some acc"
| "digits_value acc [c] = (if is_digit c then Some (10 * acc + digit_value c) else None)"
| "digits_value acc (c # d # cs) =
     (if is_digit c then digits_value (10 * acc + digit_value c) (d # cs)
      else if c = CHR ''_'' \<and> is_digit d then digits_value (10 * acc + digit_value d) cs
      else None)"

definition unsigned_value :: "string \<Rightarrow> nat option" where
  "unsigned_value s =
     (case s of [] \<Rightarrow> None
      | c # cs \<Rightarrow> if is_digit c then digits_value (digit_value c) cs else None)"

definition py_int :: "string \<Rightarrow> int option" where
  "py_int s =
     (case strip s of [] \<Rightarrow> None
      | c # cs \<Rightarrow>
          if c = CHR ''-'' then map_option (\<lambda>n. - int n) (unsigned_value cs)
          else if c = CHR ''+'' then map_option int (unsigned_value cs)
          else map_option int (unsigned_value (c # cs)))"

fun str_nat :: "nat \<Rightarrow> string" where
  "str_nat n = (if n < 10 then [char_of (48 + n)] else str_nat (n div 10) @ [char_of (48 + n mod 10)])"

declare str_nat.simps [simp del]

definition str_int :: "int \<Rightarrow> string" where
  "str_int i = (if i < 0 then CHR ''-'' # str_nat (nat (- i)) else str_nat (nat i))"

subsection \<open>\<^verbatim>\<open>make_api_request_with_retry\<close>\<close>

text \<open>
  \<^verbatim>\<open>time.sleep\<close> of an integer. A negative argument raises \<^verbatim>\<open>ValueError\<close>.
  The duration is converted to nanoseconds in 64 bits: from 9223372037 seconds on the
  conversion raises \<^verbatim>\<open>OverflowError\<close>, and 9223372036 seconds pass the conversion
  but are refused by the operating system (\<^verbatim>\<open>OSError\<close>, invalid argument). The model
  has no clock: the operating system compares the end of the sleep on its monotonic
  clock with that bound, so on a running machine it refuses durations within the clock's
  reading of the bound as well.
\<close>

definition sleep :: "int \<Rightarrow> net_state \<Rightarrow> error option \<times> net_state" where
  "sleep secs st = (if secs < 0 then (Some ValueError, st)
                    else if 9223372037 \<le> secs then (Some OverflowError, st)
                    else if 9223372036 \<le> secs then (Some OSError, st)
                    else (None, st\<lparr>sleeps := sleeps st @ [secs]\<rparr>))"

text \<open>Lines 136 to 143. The first assignment stays when the second \<^verbatim>\<open>int\<close> raises.\<close>

definition update_rate_limit_info :: "'a response \<Rightarrow> net_state \<Rightarrow> error option \<times> net_state" where
  "update_rate_limit_info response st =
     (case (case headers response ''RateLimit-Remaining'' of
              None \<Rightarrow> (None, st)
            | Some v \<Rightarrow> (case py_int v of
                           None \<Rightarrow> (Some ValueError, st)
                         | Some n \<Rightarrow> (None, st\<lparr>rate_limit_remaining := Some n\<rparr>))) of
        (Some e, st1) \<Rightarrow> (Some e, st1)
      | (None, st1) \<Rightarrow>
          (case headers response ''RateLimit-Reset'' of
             None \<Rightarrow> (None, st1)
           | Some v \<Rightarrow> (case py_int v of
                          None \<Rightarrow> (Some ValueError, st1)
                        | Some n \<Rightarrow> (None, st1\<lparr>rate_limit_reset := Some n\<rparr>))))"

text \<open>\<^verbatim>\<open>Response.raise_for_status\<close> of the requests library: \<^verbatim>\<open>HTTPError\<close> for a
  status from 400 to 599.\<close>

definition raise_for_status :: "'a response \<Rightarrow> error option" where
  "raise_for_status response =
     (if 400 \<le> status_code response \<and> status_code response < 600
      then Some (HTTPError (status_code response)) else None)"

text \<open>Line 159, \<^verbatim>\<open>int(response.headers.get('Retry-After', 60))\<close>: \<open>None\<close> when
  \<^verbatim>\<open>int\<close> raises.\<close>

definition retry_after_seconds :: "'a response \<Rightarrow> int option" where
  "retry_after_seconds response =
     (case headers response ''Retry-After'' of None \<Rightarrow> Some 60 | Some v \<Rightarrow> py_int v)"

text \<open>What one pass through the body of the \<^verbatim>\<open>for\<close> loop ends with.\<close>

datatype 'a attempt_outcome = Return "'a response" | Continue | Raise error

text \<open>The \<^verbatim>\<open>except requests.RequestException\<close> clause (lines 167 to 174); any other
  exception leaves the function.\<close>

definition except_clause :: "error \<Rightarrow> nat \<Rightarrow> net_state \<Rightarrow> 'a attempt_outcome \<times> net_state" where
  "except_clause e attempt st =
     (if is_request_exception e
      then (if attempt < RETRY_ATTEMPTS - 1
            then (let wait_time = RETRY_BACKOFF ^ attempt
                  in case sleep wait_time st of
                       (Some e', st') \<Rightarrow> (Raise e', st')
                     | (None, st') \<Rightarrow> (Continue, st'))
            else (Raise e, st))
      else (Raise e, st))"

text \<open>The \<^verbatim>\<open>try\<close> block (lines 152 to 165) on what \<^verbatim>\<open>requests.get\<close> gave.\<close>

definition attempt_body :: "'a get_result \<Rightarrow> nat \<Rightarrow> net_state \<Rightarrow> 'a attempt_outcome \<times> net_state" where
  "attempt_body got attempt st =
     (case got of
        Raises msg \<Rightarrow> except_clause (RequestException msg) attempt st
      | Responds response \<Rightarrow>
          (case update_rate_limit_info response st of
             (Some e, st1) \<Rightarrow> except_clause e attempt st1
           | (None, st1) \<Rightarrow>
               if status_code response = 429
               then (case retry_after_seconds response of
                       None \<Rightarrow> except_clause ValueError attempt st1
                     | Some retry_after \<Rightarrow>
                         (case sleep retry_after st1 of
                            (Some e, st2) \<Rightarrow> except_clause e attempt st2
                          | (None, st2) \<Rightarrow> (Continue, st2)))
               else (case raise_for_status response of
                       Some e \<Rightarrow> except_clause e attempt st1
                     | None \<Rightarrow> (Return response, st1))))"

text \<open>\<^verbatim>\<open>for attempt in range(RETRY_ATTEMPTS)\<close>, and line 176 after the loop.\<close>

fun attempts_loop ::
  "'a server \<Rightarrow> string \<Rightarrow> params option \<Rightarrow> nat list \<Rightarrow> net_state \<Rightarrow>
     (error + 'a response) \<times> net_state" where
  "attempts_loop srv url params [] st = (Inl (RequestException ''Max retries exceeded''), st)"
| "attempts_loop srv url params (attempt # rest) st =
     (case attempt_body (srv (requests_made st) url params) attempt
             (st\<lparr>requests_made := Suc (requests_made st)\<rparr>) of
        (Return response, st') \<Rightarrow> (Inr response, st')
      | (Continue, st') \<Rightarrow> attempts_loop srv url params rest st'
      | (Raise e, st') \<Rightarrow> (Inl e, st'))"

definition make_api_request_with_retry ::
  "'a server \<Rightarrow> string \<Rightarrow> params option \<Rightarrow> net_state \<Rightarrow> (error + 'a response) \<times> net_state" where
  "make_api_request_with_retry srv url params st =
     attempts_loop srv url params [0..<RETRY_ATTEMPTS] st"

text \<open>
  Three kinds of answer to one request, read off the \<^verbatim>\<open>try\<close> block. The
  rate-limit headers of a response are well formed when \<^verbatim>\<open>int\<close> accepts those that
  are present. A request fails with a \<^verbatim>\<open>RequestException\<close> when \<^verbatim>\<open>requests.get\<close>
  raises one or when \<^verbatim>\<open>raise_for_status\<close> does (a status from 400 to 599 other
  than 429, which is handled before); it succeeds when the response is returned.
\<close>

definition rate_headers_ok :: "'a response \<Rightarrow> bool" where
  "rate_headers_ok response =
     list_all (\<lambda>h. case headers response h of None \<Rightarrow> True | Some v \<Rightarrow> py_int v \<noteq> None)
       [''RateLimit-Remaining'', ''RateLimit-Reset'']"

definition request_exception_of :: "'a get_result \<Rightarrow> error option" where
  "request_exception_of got =
     (case got of
        Raises msg \<Rightarrow> Some (RequestException msg)
      | Responds response \<Rightarrow>
          if rate_headers_ok response \<and> status_code response \<noteq> 429
          then raise_for_status response else None)"

definition succeeds :: "'a get_result \<Rightarrow> bool" where
  "succeeds got =
     (case got of
        Raises msg \<Rightarrow> False
      | Responds response \<Rightarrow>
          rate_headers_ok response \<and> status_code response \<noteq> 429 \<and>
          raise_for_status response = None)"

section \<open>The paginator\<close>

text \<open>\<^verbatim>\<open>s.split(',')\<close>, \<^verbatim>\<open>sub in s\<close>, \<^verbatim>\<open>s.find(c)\<close> and the slice \<^verbatim>\<open>s[i:j]\<close>.\<close>

fun split_on :: "char \<Rightarrow> string \<Rightarrow> string list" where
  "split_on sep [] = [[]]"
| "split_on sep (c # cs) =
     (if c = sep then [] # split_on sep cs
      else (case split_on sep cs of [] \<Rightarrow> [[c]] | w # ws \<Rightarrow> (c # w) # ws))"

fun startswith :: "string \<Rightarrow> string \<Rightarrow> bool" where
  "startswith s [] = True"
| "startswith [] (p # ps) = False"
| "startswith (c # cs) (p # ps) = (c = p \<and> startswith cs ps)"

fun contains :: "string \<Rightarrow> string \<Rightarrow> bool" where
  "contains [] sub = (sub = [])"
| "contains (c # cs) sub = (startswith (c # cs) sub \<or> contains cs sub)"

fun find_char :: "char \<Rightarrow> string \<Rightarrow> int" where
  "find_char c [] = - 1"
| "find_char c (x # xs) =
     (if x = c then 0 else (let r = find_char c xs in if r < 0 then - 1 else r + 1))"

definition slice :: "int \<Rightarrow> int \<Rightarrow> 'a list \<Rightarrow> 'a list" where
  "slice i j xs =
     (let n = int (length xs);
          lo = (if i < 0 then max 0 (n + i) else min i n);
          hi = (if j < 0 then max 0 (n + j) else min j n)
      in take (nat (hi - lo)) (drop (nat lo) xs))"

text \<open>Lines 202 to 208: the first part of the \<^verbatim>\<open>Link\<close> header with \<^verbatim>\<open>rel="next"\<close>.\<close>

fun next_of_links :: "string list \<Rightarrow> string option" where
  "next_of_links [] = None"
| "next_of_links (link # links) =
     (if contains link (''rel='' @ [CHR 0x22] @ ''next'' @ [CHR 0x22])
      then Some (slice (find_char CHR ''<'' link + 1) (find_char CHR ''>'' link) link)
      else next_of_links links)"

definition next_url :: "'a response \<Rightarrow> string option" where
  "next_url response =
     (let link_header = (case headers response ''Link'' of None \<Rightarrow> [] | Some l \<Rightarrow> l)
      in next_of_links (split_on CHR '','' link_header))"

text \<open>
  The \<^verbatim>\<open>while url:\<close> loop, the same in \<^verbatim>\<open>fetch_pipelines\<close> (lines 107 to 128) and
  \<^verbatim>\<open>fetch_pipeline_jobs\<close> (lines 192 to 213). A server that always names a next page
  keeps it running, so the result is an option: \<open>None\<close> is a loop that never ends.
\<close>

partial_function (option) pages_loop ::
  "'a server \<Rightarrow> string option \<Rightarrow> params option \<Rightarrow> 'a list \<Rightarrow> net_state \<Rightarrow>
     ((error + 'a list) \<times> net_state) option" where
  "pages_loop srv url params items st =
     (case url of
        None \<Rightarrow> Some (Inr items, st)
      | Some u \<Rightarrow>
          if u = [] then Some (Inr items, st)
          else (case make_api_request_with_retry srv u params st of
                  (Inl e, st') \<Rightarrow> Some (Inl e, st')
                | (Inr response, st') \<Rightarrow>
                    if json response = [] then Some (Inr items, st')
                    else pages_loop srv (next_url response) None (items @ json response) st'))"

definition fetch_pipelines ::
  "pipeline server \<Rightarrow> string \<Rightarrow> string \<Rightarrow> net_state \<Rightarrow>
     ((error + pipeline list) \<times> net_state) option" where
  "fetch_pipelines srv project_id days_ago_iso st =
     pages_loop srv (Some (GITLAB_URL @ ''/api/v4/projects/'' @ project_id @ ''/pipelines''))
       (Some [(''updated_after'', days_ago_iso), (''per_page'', ''100'')]) [] st"

definition fetch_pipeline_jobs ::
  "job server \<Rightarrow> string \<Rightarrow> int \<Rightarrow> bool \<Rightarrow> net_state \<Rightarrow>
     ((error + job list) \<times> net_state) option" where
  "fetch_pipeline_jobs srv project_id pipeline_id include_retried st =
     pages_loop srv
       (Some (GITLAB_URL @ ''/api/v4/projects/'' @ project_id @ ''/pipelines/'' @
              str_int pipeline_id @ ''/jobs''))
       (Some ([(''per_page'', ''100'')] @
              (if include_retried then [(''include_retried'', ''true'')] else []))) [] st"

section \<open>The concurrent dispatcher\<close>

text \<open>Lines 229 to 251. Only \<^verbatim>\<open>requests.RequestException\<close> is caught.\<close>

definition fetch_pipeline_jobs_with_metadata ::
  "job server \<Rightarrow> string \<Rightarrow> pipeline \<Rightarrow> net_state \<Rightarrow>
     ((error + fetch_result) \<times> net_state) option" where
  "fetch_pipeline_jobs_with_metadata srv project_id pipeline st =
     (let pipeline_id = p_id pipeline
      in case fetch_pipeline_jobs srv project_id pipeline_id True st of
           None \<Rightarrow> None
         | Some (Inr jobs, st') \<Rightarrow>
             Some (Inr \<lparr>r_pipeline_id = pipeline_id, r_pipeline = pipeline, r_jobs = jobs,
                        r_success = True, r_error = None\<rparr>, st')
         | Some (Inl e, st') \<Rightarrow>
             if is_request_exception e
             then Some (Inr \<lparr>r_pipeline_id = pipeline_id, r_pipeline = pipeline, r_jobs = [],
                             r_success = False, r_error = Some e\<rparr>, st')
             else Some (Inl e, st'))"

text \<open>
  Lines 286 to 302. The executor runs one task per element of \<^verbatim>\<open>pipelines\<close>; the tasks
  share no state that any of them reads for a decision (the two rate-limit globals are
  written and logged only), so the task of index \<open>i\<close> is a function of its pipeline and of
  the answers its own requests get, \<open>srvs i\<close>. \<^verbatim>\<open>as_completed\<close> yields every future
  once, in the order of completion: that order is the parameter \<open>order\<close>, a permutation
  of the indices. A task that never ends blocks the \<^verbatim>\<open>with\<close> block for ever
  (\<open>None\<close>); an exception that a task did not catch is raised again by
  \<^verbatim>\<open>future.result()\<close> and ends the analysis.
\<close>

definition task ::
  "(nat \<Rightarrow> job server) \<Rightarrow> string \<Rightarrow> pipeline list \<Rightarrow> nat \<Rightarrow> (error + fetch_result) option" where
  "task srvs project_id pipelines i =
     map_option fst (fetch_pipeline_jobs_with_metadata (srvs i) project_id (pipelines ! i) initial_net)"

fun collect :: "(error + fetch_result) list \<Rightarrow> fetch_result list \<Rightarrow> error + fetch_result list" where
  "collect [] pipeline_results = Inr pipeline_results"
| "collect (Inl e # futures) pipeline_results = Inl e"
| "collect (Inr result # futures) pipeline_results = collect futures (pipeline_results @ [result])"

definition dispatch ::
  "(nat \<Rightarrow> job server) \<Rightarrow> string \<Rightarrow> pipeline list \<Rightarrow> nat list \<Rightarrow>
     (error + fetch_result list) option" where
  "dispatch srvs project_id pipelines order =
     (let futures = map (task srvs project_id pipelines) order
      in if None \<in> set futures then None else Some (collect (map the futures) []))"

definition analyze_flakiness_vs_legitimate_failures ::
  "(nat \<Rightarrow> job server) \<Rightarrow> nat list \<Rightarrow> string \<Rightarrow> pipeline list \<Rightarrow>
     (error + (string \<times> job_stat) list \<times> flakey_detail list) option" where
  "analyze_flakiness_vs_legitimate_failures srvs order project_id pipelines =
     (case dispatch srvs project_id pipelines order of
        None \<Rightarrow> None
      | Some (Inl e) \<Rightarrow> Some (Inl e)
      | Some (Inr pipeline_results) \<Rightarrow> Some (Inr (analysis_return pipeline_results)))"

section \<open>The tally of an analysis state\<close>

text \<open>
  What \<^verbatim>\<open>job_stats\<close> holds apart from the order of its keys and the lists
  \<^verbatim>\<open>flakey_pipelines\<close>: the set of job names, and the eight counters of each name
  (zero for a name without an entry). \<open>add_group\<close> is what the loop body adds to the
  tally for one group, \<open>add_result\<close> what one fetch result adds.
\<close>

datatype counter =
    Total_job_groups | Flakey_occurrences | Legitimate_failures | Clean_successes
  | Other_statuses | Total_retry_attempts | Flakey_retry_attempts | Legitimate_retry_attempts

fun counter_of :: "counter \<Rightarrow> job_stat \<Rightarrow> int" where
  "counter_of Total_job_groups = total_job_groups"
| "counter_of Flakey_occurrences = flakey_occurrences"
| "counter_of Legitimate_failures = legitimate_failures"
| "counter_of Clean_successes = clean_successes"
| "counter_of Other_statuses = other_statuses"
| "counter_of Total_retry_attempts = total_retry_attempts"
| "counter_of Flakey_retry_attempts = flakey_retry_attempts"
| "counter_of Legitimate_retry_attempts = legitimate_retry_attempts"

fun branch_delta :: "branch \<Rightarrow> int \<Rightarrow> counter \<Rightarrow> int" where
  "branch_delta b n Total_job_groups = 1"
| "branch_delta b n Total_retry_attempts = n - 1"
| "branch_delta b n Flakey_occurrences = (if b = Flakey_test then 1 else 0)"
| "branch_delta b n Flakey_retry_attempts = (if b = Flakey_test then n - 1 else 0)"
| "branch_delta b n Legitimate_failures = (if b = Legitimate_fail then 1 else 0)"
| "branch_delta b n Legitimate_retry_attempts = (if b = Legitimate_fail then n - 1 else 0)"
| "branch_delta b n Clean_successes =
     (if b = Clean_first_try \<or> b = Multiple_success then 1 else 0)"
| "branch_delta b n Other_statuses = (if b = Only_other \<or> b = Unexpected then 1 else 0)"

type_synonym tally = "(string \<Rightarrow> counter \<Rightarrow> int) \<times> string set"

definition tally_of :: "(string \<times> job_stat) list \<Rightarrow> tally" where
  "tally_of stats = (\<lambda>name c. counter_of c (dd_get default_stat stats name), fst ` set stats)"

definition add_group :: "string \<times> job list \<Rightarrow> tally \<Rightarrow> tally" where
  "add_group g t =
     (let name = fst g;
          job_list = sort_key job_id (snd g);
          d = branch_delta (classify job_list) (int (length job_list))
      in ((fst t)(name := \<lambda>c. fst t name c + d c), insert name (snd t)))"

definition add_result :: "fetch_result \<Rightarrow> tally \<Rightarrow> tally" where
  "add_result result t =
     (if r_success result then fold add_group (group_jobs_by_name (r_jobs result)) t else t)"

text \<open>The entries of the log written by line 309 for a pipeline whose fetch failed.\<close>

fun is_error_fetching :: "log_event \<Rightarrow> bool" where
  "is_error_fetching (Log_error_fetching pid e) = True"
| "is_error_fetching (Log_clean_success pid name) = False"
| "is_error_fetching (Log_flakey pid name n statuses) = False"
| "is_error_fetching (Log_legitimate_failure pid name n) = False"
| "is_error_fetching (Log_other_statuses pid name statuses) = False"
| "is_error_fetching (Log_multiple_success pid name statuses) = False"
| "is_error_fetching (Log_unexpected pid name statuses) = False"

section \<open>Example data\<close>

text \<open>
  Pipeline 101 ran the job \<^verbatim>\<open>unit-tests\<close> three times (failed, failed, success in
  the order of the identifiers; the API lists them in another order) and pipeline 102
  ran \<^verbatim>\<open>lint\<close> once.
\<close>

definition pipeline_101 :: pipeline where
  "pipeline_101 = \<lparr>p_id = 101, p_ref = Some ''main''\<rparr>"

definition pipeline_102 :: pipeline where
  "pipeline_102 = \<lparr>p_id = 102, p_ref = None\<rparr>"

definition unit_tests_101 :: "job list" where
  "unit_tests_101 =
     [\<lparr>job_id = 12, job_name = ''unit-tests'', job_status = ''failed''\<rparr>,
      \<lparr>job_id = 13, job_name = ''unit-tests'', job_status = ''success''\<rparr>,
      \<lparr>job_id = 11, job_name = ''unit-tests'', job_status = ''failed''\<rparr>]"

definition lint_102 :: "job list" where
  "lint_102 = [\<lparr>job_id = 21, job_name = ''lint'', job_status = ''failed''\<rparr>]"

definition result_101 :: fetch_result where
  "result_101 = \<lparr>r_pipeline_id = 101, r_pipeline = pipeline_101, r_jobs = unit_tests_101,
     r_success = True, r_error = None\<rparr>"

definition result_102 :: fetch_result where
  "result_102 = \<lparr>r_pipeline_id = 102, r_pipeline = pipeline_102, r_jobs = lint_102,
     r_success = True, r_error = None\<rparr>"

definition failed_result_103 :: fetch_result where
  "failed_result_103 = \<lparr>r_pipeline_id = 103, r_pipeline = \<lparr>p_id = 103, p_ref = Some ''main''\<rparr>,
     r_jobs = [], r_success = False, r_error = Some (HTTPError 404)\<rparr>"

text \<open>Responses and servers: a page of items, a bare status, a rate-limit answer, an
  empty page that names a next page.\<close>

definition ok_page :: "'a list \<Rightarrow> 'a response" where
  "ok_page items = \<lparr>status_code = 200, headers = Map.empty, json = items\<rparr>"

definition status_page :: "int \<Rightarrow> 'a response" where
  "status_page code = \<lparr>status_code = code, headers = Map.empty, json = []\<rparr>"

definition rate_limited :: "'a response" where
  "rate_limited = \<lparr>status_code = 429, headers = [''Retry-After'' \<mapsto> ''5''], json = []\<rparr>"

definition rate_limited_too_long :: "'a response" where
  "rate_limited_too_long =
     \<lparr>status_code = 429, headers = [''Retry-After'' \<mapsto> ''10000000000''], json = []\<rparr>"

definition empty_page_with_next :: "job response" where
  "empty_page_with_next =
     \<lparr>status_code = 200,
      headers = [''Link'' \<mapsto>
                   ''<https://gitlab.com/next>; rel='' @ [CHR 0x22] @ ''next'' @ [CHR 0x22]],
      json = []\<rparr>"

definition srv_429_500_500_200 :: "job server" where
  "srv_429_500_500_200 n url params =
     (if n = 0 then Responds rate_limited
      else if n < 3 then Responds (status_page 500)
      else Responds (ok_page []))"

definition srv_429_too_long :: "job server" where
  "srv_429_too_long n url params =
     (if n = 0 then Responds rate_limited_too_long else Responds (ok_page []))"

definition srv_always_429 :: "job server" where
  "srv_always_429 n url params = Responds rate_limited"

definition srv_404_200 :: "job server" where
  "srv_404_200 n url params =
     (if n = 0 then Responds (status_page 404) else Responds (ok_page []))"

definition srv_always_404 :: "job server" where
  "srv_always_404 n url params = Responds (status_page 404)"

definition srv_timeout_500_200 :: "job server" where
  "srv_timeout_500_200 n url params =
     (if n = 0 then Raises ''timed out''
      else if n = 1 then Responds (status_page 500)
      else Responds (ok_page lint_102))"

definition srv_empty_then_item :: "job server" where
  "srv_empty_then_item n url params =
     (if url = ''https://gitlab.com/next'' then Responds (ok_page lint_102)
      else Responds empty_page_with_next)"

definition srv_one_page :: "job list \<Rightarrow> job server" where
  "srv_one_page jobs n url params = Responds (ok_page jobs)"

text \<open>The answers that the tasks of two pipelines get: every request of the first
  task is answered 404, the second task gets its jobs on one page.\<close>

definition example_srvs :: "nat \<Rightarrow> job server" where
  "example_srvs i = (if i = 0 then srv_always_404 else srv_one_page lint_102)"

section \<open>Facts about dictionaries with a default and the analysis state\<close>

lemma dd_get_update:
  "dd_get d (dd_update d k f m) k' = (if k' = k then f (dd_get d m k) else dd_get d m k')"
  by (induction m) (auto simp: dd_get_def)

lemma dd_update_keys: "fst ` set (dd_update d k f m) = insert k (fst ` set m)"
  by (induction m) (force+)

lemma job_stats_log_append [simp]: "job_stats (log_append e st) = job_stats st"
  by (simp add: log_append_def)

lemma flakey_details_log_append [simp]: "flakey_details (log_append e st) = flakey_details st"
  by (simp add: log_append_def)

lemma flakey_details_stats_update [simp]:
  "flakey_details (stats_update name f st) = flakey_details st"
  by (simp add: stats_update_def)

lemma stat_at_stats_update:
  "dd_get default_stat (job_stats (stats_update name f st)) name' =
     (if name' = name then f (dd_get default_stat (job_stats st) name)
      else dd_get default_stat (job_stats st) name')"
  by (simp add: stats_update_def dd_get_update)

section \<open>The verdict of a job group\<close>

text \<open>A group with a failure and a success has at least two members, so the first
  branch (one job, successful) is not taken.\<close>

lemma classify_flakey:
  assumes "''failed'' \<in> set (map job_status jl)" and "''success'' \<in> set (map job_status jl)"
  shows "classify jl = Flakey_test"
proof -
  from assms obtain a b where a: "a \<in> set jl" "job_status a = ''failed''"
    and b: "b \<in> set jl" "job_status b = ''success''" by auto
  then have "a \<noteq> b" by auto
  with a b have "length jl \<noteq> 1" by (cases jl) auto
  with assms show ?thesis by (simp add: classify_def)
qed

lemma classify_legitimate:
  assumes "''failed'' \<in> set (map job_status jl)" and "''success'' \<notin> set (map job_status jl)"
  shows "classify jl = Legitimate_fail"
proof -
  have "\<not> (int (length jl) = 1 \<and> job_status (hd jl) = ''success'')"
  proof
    assume h: "int (length jl) = 1 \<and> job_status (hd jl) = ''success''"
    then obtain x where "jl = [x]" by (cases jl) auto
    with assms(2) h show False by simp
  qed
  with assms show ?thesis unfolding classify_def Let_def by simp
qed

lemma flakey_apply_stats:
  "flakey_retry_attempts (dd_get default_stat
      (job_stats (apply_branch Flakey_test pipeline pid name n statuses st)) name) =
   flakey_retry_attempts (dd_get default_stat (job_stats st) name) + (n - 1)"
  by (simp add: Let_def stat_at_stats_update)

lemma flakey_apply_details:
  "flakey_details (apply_branch Flakey_test pipeline pid name n statuses st) =
     flakey_details st @
       [\<lparr>d_pipeline_id = pid,
         d_pipeline_ref = (case p_ref pipeline of None \<Rightarrow> ''unknown'' | Some r \<Rightarrow> r),
         d_job_name = name, d_num_attempts = n, d_statuses = statuses\<rparr>]"
  by (simp add: Let_def)

lemma legitimate_apply_stats:
  "legitimate_retry_attempts (dd_get default_stat
      (job_stats (apply_branch Legitimate_fail pipeline pid name n statuses st)) name) =
   legitimate_retry_attempts (dd_get default_stat (job_stats st) name) + (n - 1)"
  by (simp add: Let_def stat_at_stats_update)

lemma sorted_unit_tests_101:
  "sort_key job_id unit_tests_101 =
     [\<lparr>job_id = 11, job_name = ''unit-tests'', job_status = ''failed''\<rparr>,
      \<lparr>job_id = 12, job_name = ''unit-tests'', job_status = ''failed''\<rparr>,
      \<lparr>job_id = 13, job_name = ''unit-tests'', job_status = ''success''\<rparr>]"
  by (simp add: unit_tests_101_def)

text \<open>
  Claim C1. A job group whose statuses contain both \<^verbatim>\<open>failed\<close> and \<^verbatim>\<open>success\<close>
  gets the verdict Flaky; the loop body adds the group size minus one to the entry's
  \<^verbatim>\<open>flakey_retry_attempts\<close> under the job name, and appends exactly one record to
  \<^verbatim>\<open>flakey_details\<close>, with the pipeline id, the ref, the job name, the number of
  attempts and the statuses in the order of the job identifiers.
\<close>

theorem flaky_group_recorded:
  assumes "''failed'' \<in> set (map job_status jl)" and "''success'' \<in> set (map job_status jl)"
  shows "verdict_of (classify (sort_key job_id jl)) = Flaky \<and>
         flakey_retry_attempts (dd_get default_stat
             (job_stats (process_group pipeline pid st (name, jl))) name) =
           flakey_retry_attempts (dd_get default_stat (job_stats st) name) + (int (length jl) - 1) \<and>
         flakey_details (process_group pipeline pid st (name, jl)) =
           flakey_details st @
             [\<lparr>d_pipeline_id = pid,
               d_pipeline_ref = (case p_ref pipeline of None \<Rightarrow> ''unknown'' | Some r \<Rightarrow> r),
               d_job_name = name,
               d_num_attempts = int (length jl),
               d_statuses = map job_status (sort_key job_id jl)\<rparr>]"
proof -
  have c: "classify (sort_key job_id jl) = Flakey_test"
    using assms by (intro classify_flakey) simp_all
  have v: "verdict_of (classify (sort_key job_id jl)) = Flaky"
    by (simp only: c verdict_of.simps)
  have r: "flakey_retry_attempts (dd_get default_stat
             (job_stats (process_group pipeline pid st (name, jl))) name) =
           flakey_retry_attempts (dd_get default_stat (job_stats st) name) + (int (length jl) - 1)"
    unfolding process_group_def Let_def c fst_conv snd_conv
    by (simp add: flakey_apply_stats stat_at_stats_update del: apply_branch.simps)
  have d: "flakey_details (process_group pipeline pid st (name, jl)) =
           flakey_details st @
             [\<lparr>d_pipeline_id = pid,
               d_pipeline_ref = (case p_ref pipeline of None \<Rightarrow> ''unknown'' | Some r \<Rightarrow> r),
               d_job_name = name,
               d_num_attempts = int (length jl),
               d_statuses = map job_status (sort_key job_id jl)\<rparr>]"
    unfolding process_group_def Let_def c fst_conv snd_conv
    by (simp add: flakey_apply_details del: apply_branch.simps)
  from v r d show ?thesis by (intro conjI)
qed

theorem flaky_group_recorded_witness:
  "''failed'' \<in> set (map job_status unit_tests_101) \<and>
   ''success'' \<in> set (map job_status unit_tests_101) \<and>
   verdict_of (classify (sort_key job_id unit_tests_101)) = Flaky \<and>
   flakey_retry_attempts (dd_get default_stat
     (job_stats (process_group pipeline_101 101 initial_analysis (''unit-tests'', unit_tests_101)))
        ''unit-tests'') = 2 \<and>
   flakey_details (process_group pipeline_101 101 initial_analysis (''unit-tests'', unit_tests_101)) =
     [\<lparr>d_pipeline_id = 101, d_pipeline_ref = ''main'', d_job_name = ''unit-tests'',
       d_num_attempts = 3, d_statuses = [''failed'', ''failed'', ''success'']\<rparr>]"
proof -
  have h1: "''failed'' \<in> set (map job_status unit_tests_101)"
    and h2: "''success'' \<in> set (map job_status unit_tests_101)"
    by (simp_all add: unit_tests_101_def)
  have len: "int (length unit_tests_101) = 3" by (simp add: unit_tests_101_def)
  have z: "flakey_retry_attempts (dd_get default_stat (job_stats initial_analysis) ''unit-tests'') = 0"
    "flakey_details initial_analysis = []" "p_ref pipeline_101 = Some ''main''"
    by (simp_all add: initial_analysis_def dd_get_def default_stat_def pipeline_101_def)
  show ?thesis
    using flaky_group_recorded [OF h1 h2, of pipeline_101 101 initial_analysis "''unit-tests''"] h1 h2
    by (simp only: len z sorted_unit_tests_101) simp
qed

text \<open>
  Claim C8. A job group whose statuses contain \<^verbatim>\<open>failed\<close> and no \<^verbatim>\<open>success\<close> gets
  the verdict LegitimateFailure, and the loop body adds the group size minus one to the
  entry's \<^verbatim>\<open>legitimate_retry_attempts\<close> under the job name.
\<close>

theorem legitimate_group_recorded:
  assumes "''failed'' \<in> set (map job_status jl)" and "''success'' \<notin> set (map job_status jl)"
  shows "verdict_of (classify (sort_key job_id jl)) = LegitimateFailure \<and>
         legitimate_retry_attempts (dd_get default_stat
             (job_stats (process_group pipeline pid st (name, jl))) name) =
           legitimate_retry_attempts (dd_get default_stat (job_stats st) name) +
             (int (length jl) - 1)"
proof -
  have c: "classify (sort_key job_id jl) = Legitimate_fail"
    using assms by (intro classify_legitimate) simp_all
  have v: "verdict_of (classify (sort_key job_id jl)) = LegitimateFailure"
    by (simp only: c verdict_of.simps)
  have r: "legitimate_retry_attempts (dd_get default_stat
             (job_stats (process_group pipeline pid st (name, jl))) name) =
           legitimate_retry_attempts (dd_get default_stat (job_stats st) name) +
             (int (length jl) - 1)"
    unfolding process_group_def Let_def c fst_conv snd_conv
    by (simp add: legitimate_apply_stats stat_at_stats_update del: apply_branch.simps)
  from v r show ?thesis by (rule conjI)
qed

theorem legitimate_group_recorded_witness:
  "''failed'' \<in> set (map job_status lint_102) \<and>
   ''success'' \<notin> set (map job_status lint_102) \<and>
   verdict_of (classify (sort_key job_id lint_102)) = LegitimateFailure \<and>
   legitimate_retry_attempts (dd_get default_stat
     (job_stats (process_group pipeline_102 102 initial_analysis (''lint'', lint_102)))
        ''lint'') = 0"
proof -
  have h1: "''failed'' \<in> set (map job_status lint_102)"
    and h2: "''success'' \<notin> set (map job_status lint_102)"
    by (simp_all add: lint_102_def)
  have len: "int (length lint_102) = 1" by (simp add: lint_102_def)
  have z: "legitimate_retry_attempts (dd_get default_stat (job_stats initial_analysis) ''lint'') = 0"
    by (simp add: initial_analysis_def dd_get_def default_stat_def)
  show ?thesis
    using legitimate_group_recorded [OF h1 h2, of pipeline_102 102 initial_analysis "''lint''"] h1 h2
    by (simp only: len z) simp
qed

section \<open>The verdict does not depend on the order of a group\<close>

lemma classify_mset:
  assumes "mset xs = mset ys"
  shows "classify xs = classify ys"
proof (cases "length xs = 1")
  case True
  then obtain x where x: "xs = [x]" by (cases xs) auto
  with assms have "mset ys = {#x#}" by simp
  then have "ys = [x]" by (simp only: mset_single_iff)
  with x show ?thesis by (simp only:)
next
  case False
  have len: "length xs = length ys" using assms by (rule mset_eq_length)
  have st: "set (map job_status xs) = set (map job_status ys)"
    using assms by (metis mset_map set_mset_mset)
  from False len have n: "int (length ys) \<noteq> 1" by simp
  show ?thesis unfolding classify_def Let_def st len using n by simp
qed

lemma job_stats_apply_branch:
  "job_stats (apply_branch b pipeline pid name n s1 st) =
   job_stats (apply_branch b pipeline pid name n s2 st)"
  by (cases b) (simp_all add: Let_def stats_update_def)

text \<open>
  Claim C10. For two arrangements of the same job executions, the verdict, the retry count
  and every counter of \<^verbatim>\<open>job_stats\<close> after the loop body are the same; the verdict of
  the sorted group is the verdict of the group as it came. The sort only decides the
  order of the statuses kept in \<^verbatim>\<open>flakey_details\<close>.
\<close>

theorem verdict_permutation_invariant:
  assumes "mset jl = mset jl'"
  shows "verdict_of (classify (sort_key job_id jl)) = verdict_of (classify (sort_key job_id jl')) \<and>
         verdict_of (classify (sort_key job_id jl)) = verdict_of (classify jl) \<and>
         int (length (sort_key job_id jl)) - 1 = int (length (sort_key job_id jl')) - 1 \<and>
         job_stats (process_group pipeline pid st (name, jl)) =
           job_stats (process_group pipeline pid st (name, jl'))"
proof -
  have a: "classify (sort_key job_id jl) = classify (sort_key job_id jl')"
    using assms by (intro classify_mset) simp
  have b: "classify (sort_key job_id jl) = classify jl"
    by (intro classify_mset) simp
  have len: "length jl = length jl'" using assms by (rule mset_eq_length)
  have "job_stats (process_group pipeline pid st (name, jl)) =
           job_stats (process_group pipeline pid st (name, jl'))"
    unfolding process_group_def Let_def fst_conv snd_conv length_sort a len
    by (rule job_stats_apply_branch)
  with a b len show ?thesis by simp
qed

theorem verdict_permutation_invariant_witness:
  "mset unit_tests_101 = mset (rev unit_tests_101) \<and>
   verdict_of (classify (sort_key job_id unit_tests_101)) =
     verdict_of (classify (sort_key job_id (rev unit_tests_101))) \<and>
   verdict_of (classify (sort_key job_id unit_tests_101)) = verdict_of (classify unit_tests_101) \<and>
   job_stats (process_group pipeline_101 101 initial_analysis (''unit-tests'', unit_tests_101)) =
     job_stats (process_group pipeline_101 101 initial_analysis (''unit-tests'', rev unit_tests_101))"
proof -
  have h: "mset unit_tests_101 = mset (rev unit_tests_101)" by simp
  show ?thesis
    using verdict_permutation_invariant [OF h, of pipeline_101 101 initial_analysis "''unit-tests''"] h
    by blast
qed


section \<open>One pass through the retry loop\<close>

lemma update_rate_limit_info_keeps:
  "sleeps (snd (update_rate_limit_info response st)) = sleeps st \<and>
   requests_made (snd (update_rate_limit_info response st)) = requests_made st"
  by (simp add: update_rate_limit_info_def split: option.splits)

lemma update_rate_limit_info_ok:
  "rate_headers_ok response \<Longrightarrow> fst (update_rate_limit_info response st) = None"
  by (auto simp: update_rate_limit_info_def rate_headers_ok_def split: option.splits)

lemma backoff_sleep:
  "attempt < RETRY_ATTEMPTS - 1 \<Longrightarrow>
   sleep (RETRY_BACKOFF ^ attempt) st = (None, st\<lparr>sleeps := sleeps st @ [RETRY_BACKOFF ^ attempt]\<rparr>)"
proof -
  assume "attempt < RETRY_ATTEMPTS - 1"
  then have "attempt = 0 \<or> attempt = 1" by (auto simp: RETRY_ATTEMPTS_def)
  then show ?thesis by (auto simp: sleep_def RETRY_BACKOFF_def)
qed

lemma except_clause_request_exception:
  assumes "is_request_exception e"
  shows "except_clause e attempt st =
     (if attempt < RETRY_ATTEMPTS - 1
      then (Continue, st\<lparr>sleeps := sleeps st @ [RETRY_BACKOFF ^ attempt]\<rparr>)
      else (Raise e, st))"
  using assms by (simp add: except_clause_def backoff_sleep)

lemma attempts_loop_request_exception:
  assumes "request_exception_of (srv (requests_made st) url params) = Some e"
  shows "\<exists>st1. sleeps st1 = sleeps st \<and> requests_made st1 = Suc (requests_made st) \<and>
          attempts_loop srv url params (attempt # rest) st =
            (if attempt < RETRY_ATTEMPTS - 1
             then attempts_loop srv url params rest (st1\<lparr>sleeps := sleeps st1 @ [RETRY_BACKOFF ^ attempt]\<rparr>)
             else (Inl e, st1))"
proof (cases "srv (requests_made st) url params")
  case (Raises msg)
  with assms have e: "e = RequestException msg" by (simp add: request_exception_of_def)
  let ?st1 = "st\<lparr>requests_made := Suc (requests_made st)\<rparr>"
  have "attempts_loop srv url params (attempt # rest) st =
            (if attempt < RETRY_ATTEMPTS - 1
             then attempts_loop srv url params rest (?st1\<lparr>sleeps := sleeps ?st1 @ [RETRY_BACKOFF ^ attempt]\<rparr>)
             else (Inl e, ?st1))"
    by (simp add: Raises e attempt_body_def except_clause_request_exception)
  then show ?thesis by (intro exI [of _ ?st1]) simp
next
  case (Responds response)
  let ?st0 = "st\<lparr>requests_made := Suc (requests_made st)\<rparr>"
  let ?u = "update_rate_limit_info response ?st0"
  from assms Responds have ok: "rate_headers_ok response" and n429: "status_code response \<noteq> 429"
    and r: "raise_for_status response = Some e"
    by (auto simp: request_exception_of_def split: if_splits)
  from ok have f: "fst ?u = None" by (rule update_rate_limit_info_ok)
  then have u: "?u = (None, snd ?u)" by (metis prod.collapse)
  from r have req: "is_request_exception e" by (auto simp: raise_for_status_def split: if_splits)
  have "attempts_loop srv url params (attempt # rest) st =
            (if attempt < RETRY_ATTEMPTS - 1
             then attempts_loop srv url params rest ((snd ?u)\<lparr>sleeps := sleeps (snd ?u) @ [RETRY_BACKOFF ^ attempt]\<rparr>)
             else (Inl e, snd ?u))"
    apply (simp only: attempts_loop.simps Responds attempt_body_def get_result.case)
    apply (subst u)
    apply (simp add: n429 r except_clause_request_exception [OF req])
    done
  moreover have "sleeps (snd ?u) = sleeps st" "requests_made (snd ?u) = Suc (requests_made st)"
    by (simp_all add: update_rate_limit_info_keeps)
  ultimately show ?thesis by (intro exI [of _ "snd ?u"]) simp
qed

lemma attempts_loop_succeeds:
  assumes "succeeds (srv (requests_made st) url params)"
  shows "\<exists>response st1. srv (requests_made st) url params = Responds response \<and>
          attempts_loop srv url params (attempt # rest) st = (Inr response, st1) \<and>
          sleeps st1 = sleeps st \<and> requests_made st1 = Suc (requests_made st)"
proof (cases "srv (requests_made st) url params")
  case (Raises msg)
  with assms show ?thesis by (simp add: succeeds_def)
next
  case (Responds response)
  let ?st0 = "st\<lparr>requests_made := Suc (requests_made st)\<rparr>"
  let ?u = "update_rate_limit_info response ?st0"
  from assms Responds have ok: "rate_headers_ok response" and n429: "status_code response \<noteq> 429"
    and r: "raise_for_status response = None"
    by (auto simp: succeeds_def)
  from ok have f: "fst ?u = None" by (rule update_rate_limit_info_ok)
  then have u: "?u = (None, snd ?u)" by (metis prod.collapse)
  have "attempts_loop srv url params (attempt # rest) st = (Inr response, snd ?u)"
    apply (simp only: attempts_loop.simps Responds attempt_body_def get_result.case)
    apply (subst u)
    apply (simp add: n429 r)
    done
  moreover have "sleeps (snd ?u) = sleeps st" "requests_made (snd ?u) = Suc (requests_made st)"
    by (simp_all add: update_rate_limit_info_keeps)
  ultimately show ?thesis using Responds by blast
qed

lemma sleep_error_not_caught:
  "fst (sleep secs st) = Some e \<Longrightarrow> \<not> is_request_exception e \<and> snd (sleep secs st) = st"
  by (auto simp: sleep_def split: if_splits)

lemma sleep_accepted:
  "fst (sleep secs st) = None \<Longrightarrow> sleep secs st = (None, st\<lparr>sleeps := sleeps st @ [secs]\<rparr>)"
  by (auto simp: sleep_def split: if_splits)

lemma attempts_loop_rate_limited:
  assumes "srv (requests_made st) url params = Responds response"
    and "rate_headers_ok response" and "status_code response = 429"
    and "retry_after_seconds response = Some n"
  shows "\<exists>st1. sleeps st1 = sleeps st \<and> requests_made st1 = Suc (requests_made st) \<and>
          (\<forall>attempt rest. attempts_loop srv url params (attempt # rest) st =
            (case fst (sleep n st1) of
               None \<Rightarrow> attempts_loop srv url params rest (st1\<lparr>sleeps := sleeps st1 @ [n]\<rparr>)
             | Some e \<Rightarrow> (Inl e, st1)))"
proof -
  let ?st0 = "st\<lparr>requests_made := Suc (requests_made st)\<rparr>"
  let ?u = "update_rate_limit_info response ?st0"
  let ?st1 = "snd ?u"
  from assms(2) have f: "fst ?u = None" by (rule update_rate_limit_info_ok)
  then have u: "?u = (None, ?st1)" by (metis prod.collapse)
  have body: "attempt_body (Responds response) attempt ?st0 =
      (case sleep n ?st1 of
         (Some e, st2) \<Rightarrow> except_clause e attempt st2
       | (None, st2) \<Rightarrow> (Continue, st2))" for attempt
    apply (simp only: attempt_body_def get_result.case)
    apply (subst u)
    apply (simp add: assms(3,4))
    done
  have "attempts_loop srv url params (attempt # rest) st =
          (case fst (sleep n ?st1) of
             None \<Rightarrow> attempts_loop srv url params rest (?st1\<lparr>sleeps := sleeps ?st1 @ [n]\<rparr>)
           | Some e \<Rightarrow> (Inl e, ?st1))"
    for attempt rest
  proof (cases "fst (sleep n ?st1)")
    case None
    then have "sleep n ?st1 = (None, ?st1\<lparr>sleeps := sleeps ?st1 @ [n]\<rparr>)"
      by (rule sleep_accepted)
    then show ?thesis
      by (simp only: attempts_loop.simps assms(1) body) simp
  next
    case (Some e)
    from sleep_error_not_caught [OF Some]
    have "sleep n ?st1 = (Some e, ?st1)" and "\<not> is_request_exception e"
      using Some by (auto simp: prod_eq_iff)
    then show ?thesis
      by (simp only: attempts_loop.simps assms(1) body) (simp add: except_clause_def)
  qed
  moreover have "sleeps ?st1 = sleeps st" "requests_made ?st1 = Suc (requests_made st)"
    by (simp_all add: update_rate_limit_info_keeps)
  ultimately show ?thesis by blast
qed

lemma py_int_5: "py_int ''5'' = Some 5"
  by (simp add: py_int_def strip_def is_space_def unsigned_value_def is_digit_def digit_value_def)

lemma py_int_too_long: "py_int ''10000000000'' = Some 10000000000"
  by (simp add: py_int_def strip_def is_space_def unsigned_value_def is_digit_def digit_value_def)

lemma rate_limited_facts:
  "rate_headers_ok (rate_limited :: 'a response)"
  "status_code (rate_limited :: 'a response) = 429"
  "retry_after_seconds (rate_limited :: 'a response) = Some 5"
  by (simp_all add: rate_limited_def rate_headers_ok_def retry_after_seconds_def py_int_5)

lemma rate_limited_too_long_facts:
  "rate_headers_ok (rate_limited_too_long :: 'a response)"
  "status_code (rate_limited_too_long :: 'a response) = 429"
  "retry_after_seconds (rate_limited_too_long :: 'a response) = Some 10000000000"
  by (simp_all add: rate_limited_too_long_def rate_headers_ok_def retry_after_seconds_def
        py_int_too_long)

section \<open>Rate limiting and the attempt budget\<close>

text \<open>
  Claim C2, as the code has it. A response with status 429 makes the fetcher call
  \<^verbatim>\<open>time.sleep\<close> with the value of the \<^verbatim>\<open>Retry-After\<close> header (60 when the header
  is absent). When \<^verbatim>\<open>time.sleep\<close> accepts the value, the fetcher sleeps that long and
  goes on with the next pass of \<^verbatim>\<open>for attempt in range(RETRY_ATTEMPTS)\<close>: the wait
  takes one of the attempts of the budget, the loop continues with the attempts that
  remain, and when the rate-limited attempt was the last one the fetch ends with the
  \<^verbatim>\<open>RequestException\<close> of line 176. When \<^verbatim>\<open>time.sleep\<close> raises (a negative value,
  or one too large for it), that exception is not a \<^verbatim>\<open>RequestException\<close> and leaves
  the fetch at once, without a sleep and after this one request.
\<close>

theorem rate_limited_attempt_counts:
  assumes "srv (requests_made st) url params = Responds response"
    and "rate_headers_ok response" and "status_code response = 429"
    and "retry_after_seconds response = Some n"
  shows "(headers response ''Retry-After'' = None \<longrightarrow> n = 60) \<and>
         (\<exists>st1. sleeps st1 = sleeps st \<and> requests_made st1 = Suc (requests_made st) \<and>
            attempts_loop srv url params (attempt # rest) st =
              (case fst (sleep n st1) of
                 None \<Rightarrow> attempts_loop srv url params rest (st1\<lparr>sleeps := sleeps st1 @ [n]\<rparr>)
               | Some e \<Rightarrow> (Inl e, st1)) \<and>
            attempts_loop srv url params [attempt] st =
              (case fst (sleep n st1) of
                 None \<Rightarrow> (Inl (RequestException ''Max retries exceeded''),
                           st1\<lparr>sleeps := sleeps st1 @ [n]\<rparr>)
               | Some e \<Rightarrow> (Inl e, st1)))"
proof -
  from assms(4) have "headers response ''Retry-After'' = None \<longrightarrow> n = 60"
    by (auto simp: retry_after_seconds_def)
  moreover from attempts_loop_rate_limited [where srv = srv and st = st and url = url
      and params = params and response = response and n = n, OF assms]
  obtain st1 where "sleeps st1 = sleeps st" "requests_made st1 = Suc (requests_made st)"
    and l: "\<And>attempt rest. attempts_loop srv url params (attempt # rest) st =
            (case fst (sleep n st1) of
               None \<Rightarrow> attempts_loop srv url params rest (st1\<lparr>sleeps := sleeps st1 @ [n]\<rparr>)
             | Some e \<Rightarrow> (Inl e, st1))" by blast
  moreover have "attempts_loop srv url params [attempt] st =
              (case fst (sleep n st1) of
                 None \<Rightarrow> (Inl (RequestException ''Max retries exceeded''),
                           st1\<lparr>sleeps := sleeps st1 @ [n]\<rparr>)
               | Some e \<Rightarrow> (Inl e, st1))"
    by (subst l) (simp split: option.split)
  ultimately show ?thesis using l by blast
qed

text \<open>
  Two instances: with \<^verbatim>\<open>Retry-After: 5\<close> on the last attempt the fetch sleeps five
  seconds and ends with the exception of line 176; with \<^verbatim>\<open>Retry-After: 10000000000\<close>
  the \<^verbatim>\<open>OverflowError\<close> of \<^verbatim>\<open>time.sleep\<close> ends the fetch after one request, with
  two attempts and a successful answer left unused.
\<close>

theorem rate_limited_attempt_counts_witness:
  "srv_always_429 (requests_made initial_net) ''u'' None = Responds rate_limited \<and>
   (\<exists>st1. sleeps st1 = sleeps initial_net \<and> requests_made st1 = Suc (requests_made initial_net) \<and>
      attempts_loop srv_always_429 ''u'' None [2] initial_net =
        (Inl (RequestException ''Max retries exceeded''), st1\<lparr>sleeps := sleeps st1 @ [5]\<rparr>)) \<and>
   srv_429_too_long (requests_made initial_net) ''u'' None = Responds rate_limited_too_long \<and>
   (\<exists>st1. sleeps st1 = sleeps initial_net \<and> requests_made st1 = Suc (requests_made initial_net) \<and>
      attempts_loop srv_429_too_long ''u'' None [0, 1, 2] initial_net = (Inl OverflowError, st1))"
proof -
  have h: "srv_always_429 (requests_made initial_net) ''u'' None = Responds rate_limited"
    by (simp add: srv_always_429_def)
  have h': "srv_429_too_long (requests_made initial_net) ''u'' None = Responds rate_limited_too_long"
    by (simp add: srv_429_too_long_def initial_net_def)
  from rate_limited_attempt_counts [where srv = srv_always_429 and st = initial_net
      and url = "''u''" and params = None and response = rate_limited and n = 5
      and attempt = 2 and rest = "[]", OF h rate_limited_facts]
  have a: "\<exists>st1. sleeps st1 = sleeps initial_net \<and>
      requests_made st1 = Suc (requests_made initial_net) \<and>
      attempts_loop srv_always_429 ''u'' None [2] initial_net =
        (Inl (RequestException ''Max retries exceeded''), st1\<lparr>sleeps := sleeps st1 @ [5]\<rparr>)"
    by (simp add: sleep_def del: attempts_loop.simps) blast
  from rate_limited_attempt_counts [where srv = srv_429_too_long and st = initial_net
      and url = "''u''" and params = None and response = rate_limited_too_long
      and n = 10000000000 and attempt = 0 and rest = "[1, 2]", OF h' rate_limited_too_long_facts]
  have b: "\<exists>st1. sleeps st1 = sleeps initial_net \<and>
      requests_made st1 = Suc (requests_made initial_net) \<and>
      attempts_loop srv_429_too_long ''u'' None [0, 1, 2] initial_net = (Inl OverflowError, st1)"
    by (simp add: sleep_def del: attempts_loop.simps) blast
  from h a h' b show ?thesis by (intro conjI)
qed

text \<open>
  The claim as stated fails. The server answers 429 with \<^verbatim>\<open>Retry-After: 5\<close>, then
  500 twice, then 200. If the rate-limit wait took no attempt, three attempts would
  follow it and the third would return the 200. The fetch raises the second 500 after
  three requests, and the back-off after the first 500 is that of attempt 1.
\<close>

theorem rate_limit_budget_counterexample:
  "make_api_request_with_retry srv_429_500_500_200 ''u'' None initial_net =
     (Inl (HTTPError 500),
      \<lparr>requests_made = 3, sleeps = [5, 2], rate_limit_remaining = None, rate_limit_reset = None\<rparr>) \<and>
   srv_429_500_500_200 3 ''u'' None = Responds (ok_page [])"
  by (simp add: make_api_request_with_retry_def RETRY_ATTEMPTS_def RETRY_BACKOFF_def upt_rec
       srv_429_500_500_200_def initial_net_def attempt_body_def update_rate_limit_info_def
       rate_limited_def status_page_def ok_page_def py_int_5 sleep_def raise_for_status_def
       except_clause_def retry_after_seconds_def)

section \<open>Client errors\<close>

text \<open>
  Claim C3, as the code has it. \<^verbatim>\<open>raise_for_status\<close> raises the same
  \<^verbatim>\<open>HTTPError\<close> for a status from 400 to 499 as for one from 500 to 599, and the
  \<^verbatim>\<open>except\<close> clause treats it as it treats a network error: while the attempt is
  not the last of the budget the fetcher sleeps \<^verbatim>\<open>RETRY_BACKOFF ** attempt\<close> and
  tries again, and on the last attempt the exception is raised to the caller. A 404 is
  retried like a 500.
\<close>

theorem http_error_retried_like_transient:
  assumes "request_exception_of (srv (requests_made st) url params) = Some e"
  shows "\<exists>st1. sleeps st1 = sleeps st \<and> requests_made st1 = Suc (requests_made st) \<and>
          attempts_loop srv url params (attempt # rest) st =
            (if attempt < RETRY_ATTEMPTS - 1
             then attempts_loop srv url params rest (st1\<lparr>sleeps := sleeps st1 @ [RETRY_BACKOFF ^ attempt]\<rparr>)
             else (Inl e, st1))"
  using assms by (rule attempts_loop_request_exception)

theorem http_error_retried_like_transient_witness:
  "request_exception_of (srv_always_404 (requests_made initial_net) ''u'' None) = Some (HTTPError 404) \<and>
   (\<exists>st1. sleeps st1 = sleeps initial_net \<and> requests_made st1 = Suc (requests_made initial_net) \<and>
      attempts_loop srv_always_404 ''u'' None [1, 2] initial_net =
        attempts_loop srv_always_404 ''u'' None [2] (st1\<lparr>sleeps := sleeps st1 @ [2]\<rparr>))"
proof -
  have h: "request_exception_of (srv_always_404 (requests_made initial_net) ''u'' None) = Some (HTTPError 404)"
    by (simp add: srv_always_404_def request_exception_of_def status_page_def rate_headers_ok_def
          raise_for_status_def)
  from http_error_retried_like_transient [where srv = srv_always_404 and st = initial_net
      and url = "''u''" and params = None and attempt = 1 and rest = "[2]", OF h] h
  show ?thesis by (simp add: RETRY_ATTEMPTS_def RETRY_BACKOFF_def)
qed

text \<open>
  The claim as stated fails: a 404 followed by a 200 is not surfaced. The fetcher sleeps
  one second, asks again and returns the second response.
\<close>

theorem not_found_retried_counterexample:
  "make_api_request_with_retry srv_404_200 ''u'' None initial_net =
     (Inr (ok_page []),
      \<lparr>requests_made = 2, sleeps = [1], rate_limit_remaining = None, rate_limit_reset = None\<rparr>)"
  by (simp add: make_api_request_with_retry_def RETRY_ATTEMPTS_def RETRY_BACKOFF_def upt_rec
       srv_404_200_def initial_net_def attempt_body_def update_rate_limit_info_def
       status_page_def ok_page_def sleep_def raise_for_status_def except_clause_def)

section \<open>The back-off schedule\<close>

text \<open>
  Claim C9. When every attempt but the last of the budget fails with a
  \<^verbatim>\<open>RequestException\<close> (a network error or an error status) and the last request
  succeeds, the fetch returns that last response, having made \<^verbatim>\<open>RETRY_ATTEMPTS\<close>
  requests and slept \<^verbatim>\<open>RETRY_BACKOFF ** i\<close> seconds after the attempt of index
  \<open>i\<close>: one second, then two.
\<close>

theorem retry_schedule:
  assumes fails: "\<forall>i < RETRY_ATTEMPTS - 1.
             request_exception_of (srv (requests_made st + i) url params) \<noteq> None"
    and ok: "succeeds (srv (requests_made st + (RETRY_ATTEMPTS - 1)) url params)"
  shows "\<exists>response st'.
           srv (requests_made st + (RETRY_ATTEMPTS - 1)) url params = Responds response \<and>
           make_api_request_with_retry srv url params st = (Inr response, st') \<and>
           sleeps st' = sleeps st @ map (\<lambda>i. RETRY_BACKOFF ^ i) [0..<RETRY_ATTEMPTS - 1] \<and>
           map (\<lambda>i. RETRY_BACKOFF ^ i) [0..<RETRY_ATTEMPTS - 1] = [1, 2] \<and>
           requests_made st' = requests_made st + RETRY_ATTEMPTS"
proof -
  have "(0::nat) < RETRY_ATTEMPTS - 1" and "(1::nat) < RETRY_ATTEMPTS - 1"
    by (simp_all add: RETRY_ATTEMPTS_def)
  with fails have "request_exception_of (srv (requests_made st + 0) url params) \<noteq> None"
    and "request_exception_of (srv (requests_made st + 1) url params) \<noteq> None"
    by blast+
  then obtain e0 e1 where
    e0: "request_exception_of (srv (requests_made st) url params) = Some e0" and
    e1: "request_exception_of (srv (Suc (requests_made st)) url params) = Some e1"
    by auto
  from attempts_loop_request_exception [where srv = srv and st = st and url = url
      and params = params and attempt = 0 and rest = "[1, 2]", OF e0]
  obtain st1 where s1: "sleeps st1 = sleeps st" "requests_made st1 = Suc (requests_made st)"
    and l1: "attempts_loop srv url params [0, 1, 2] st =
      attempts_loop srv url params [1, 2] (st1\<lparr>sleeps := sleeps st1 @ [RETRY_BACKOFF ^ 0]\<rparr>)"
    by (auto simp: RETRY_ATTEMPTS_def)
  let ?s1 = "st1\<lparr>sleeps := sleeps st1 @ [RETRY_BACKOFF ^ 0]\<rparr>"
  from e1 s1 have e1': "request_exception_of (srv (requests_made ?s1) url params) = Some e1" by simp
  from attempts_loop_request_exception [where srv = srv and st = ?s1 and url = url
      and params = params and attempt = 1 and rest = "[2]", OF e1']
  obtain st2 where s2: "sleeps st2 = sleeps ?s1" "requests_made st2 = Suc (requests_made ?s1)"
    and l2: "attempts_loop srv url params [1, 2] ?s1 =
      attempts_loop srv url params [2] (st2\<lparr>sleeps := sleeps st2 @ [RETRY_BACKOFF ^ 1]\<rparr>)"
    by (auto simp: RETRY_ATTEMPTS_def)
  let ?s2 = "st2\<lparr>sleeps := sleeps st2 @ [RETRY_BACKOFF ^ 1]\<rparr>"
  from ok s1 s2 have ok': "succeeds (srv (requests_made ?s2) url params)"
    by (simp add: RETRY_ATTEMPTS_def numeral_2_eq_2)
  from attempts_loop_succeeds [where srv = srv and st = ?s2 and url = url
      and params = params and attempt = 2 and rest = "[]", OF ok']
  obtain response st3 where r: "srv (requests_made ?s2) url params = Responds response"
    and l3: "attempts_loop srv url params [2] ?s2 = (Inr response, st3)"
    and s3: "sleeps st3 = sleeps ?s2" "requests_made st3 = Suc (requests_made ?s2)"
    by blast
  have up: "[0..<RETRY_ATTEMPTS] = [0, 1, 2]"
    by (simp add: RETRY_ATTEMPTS_def upt_rec)
  have "make_api_request_with_retry srv url params st = (Inr response, st3)"
    unfolding make_api_request_with_retry_def up by (simp only: l1 l2 l3)
  moreover have "srv (requests_made st + (RETRY_ATTEMPTS - 1)) url params = Responds response"
    using r s1 s2 by (simp add: RETRY_ATTEMPTS_def numeral_2_eq_2)
  moreover have "map (\<lambda>i. RETRY_BACKOFF ^ i) [0..<RETRY_ATTEMPTS - 1] = [1, 2]"
    by (simp add: RETRY_ATTEMPTS_def RETRY_BACKOFF_def upt_rec)
  moreover have "sleeps st3 = sleeps st @ [1, 2]"
    using s1 s2 s3 by (simp add: RETRY_BACKOFF_def)
  moreover have "requests_made st3 = requests_made st + RETRY_ATTEMPTS"
    using s1 s2 s3 by (simp add: RETRY_ATTEMPTS_def)
  ultimately show ?thesis by (intro exI [of _ response] exI [of _ st3]) simp
qed

theorem retry_schedule_witness:
  "request_exception_of (srv_timeout_500_200 0 ''u'' None) = Some (RequestException ''timed out'') \<and>
   request_exception_of (srv_timeout_500_200 1 ''u'' None) = Some (HTTPError 500) \<and>
   succeeds (srv_timeout_500_200 2 ''u'' None) \<and>
   (\<exists>st'. make_api_request_with_retry srv_timeout_500_200 ''u'' None initial_net =
            (Inr (ok_page lint_102), st') \<and>
          sleeps st' = [1, 2] \<and> requests_made st' = 3)"
proof -
  have e0: "request_exception_of (srv_timeout_500_200 0 ''u'' None) =
      Some (RequestException ''timed out'')"
    by (simp add: srv_timeout_500_200_def request_exception_of_def)
  have e1: "request_exception_of (srv_timeout_500_200 1 ''u'' None) = Some (HTTPError 500)"
    by (simp add: srv_timeout_500_200_def request_exception_of_def status_page_def
          rate_headers_ok_def raise_for_status_def)
  have s2: "succeeds (srv_timeout_500_200 2 ''u'' None)"
    by (simp add: srv_timeout_500_200_def succeeds_def ok_page_def rate_headers_ok_def
          raise_for_status_def)
  have z: "sleeps initial_net = []" "requests_made initial_net = 0"
    by (simp_all add: initial_net_def)
  have h1: "\<forall>i < RETRY_ATTEMPTS - 1.
      request_exception_of (srv_timeout_500_200 (requests_made initial_net + i) ''u'' None) \<noteq> None"
  proof (intro allI impI)
    fix i :: nat assume "i < RETRY_ATTEMPTS - 1"
    then have "i = 0 \<or> i = 1" by (auto simp: RETRY_ATTEMPTS_def)
    with e0 e1 z
    show "request_exception_of (srv_timeout_500_200 (requests_made initial_net + i) ''u'' None) \<noteq> None"
      by auto
  qed
  have h2: "succeeds (srv_timeout_500_200 (requests_made initial_net + (RETRY_ATTEMPTS - 1)) ''u'' None)"
    using s2 z by (simp add: RETRY_ATTEMPTS_def numeral_2_eq_2)
  have r: "srv_timeout_500_200 (requests_made initial_net + (RETRY_ATTEMPTS - 1)) ''u'' None =
      Responds (ok_page lint_102)"
    by (simp add: RETRY_ATTEMPTS_def srv_timeout_500_200_def initial_net_def)
  from retry_schedule [where srv = srv_timeout_500_200 and st = initial_net
      and url = "''u''" and params = None, OF h1 h2] r z have
    "\<exists>st'. make_api_request_with_retry srv_timeout_500_200 ''u'' None initial_net =
            (Inr (ok_page lint_102), st') \<and>
          sleeps st' = [1, 2] \<and> requests_made st' = 3"
    by (auto simp: RETRY_ATTEMPTS_def)
  with e0 e1 s2 show ?thesis by blast
qed

section \<open>Empty pages\<close>

lemma pages_loop_empty_page:
  assumes "u \<noteq> []" and "make_api_request_with_retry srv u params st = (Inr response, st')"
    and "json response = []"
  shows "pages_loop srv (Some u) params items st = Some (Inr items, st')"
  by (subst pages_loop.simps) (simp add: assms)

lemma pages_loop_stop: "pages_loop srv None params items st = Some (Inr items, st)"
  by (subst pages_loop.simps) simp

lemma pages_loop_error:
  assumes "u \<noteq> []" and "make_api_request_with_retry srv u params st = (Inl e, st')"
  shows "pages_loop srv (Some u) params items st = Some (Inl e, st')"
  by (subst pages_loop.simps) (simp add: assms)

lemma pages_loop_last_page:
  assumes "u \<noteq> []" and "make_api_request_with_retry srv u params st = (Inr response, st')"
    and "json response \<noteq> []" and "next_url response = None"
  shows "pages_loop srv (Some u) params items st = Some (Inr (items @ json response), st')"
  by (subst pages_loop.simps) (simp add: assms pages_loop_stop)

lemma gitlab_url_nonempty: "GITLAB_URL @ rest \<noteq> []"
  by (simp add: GITLAB_URL_def)

lemma jobs_url_not_next:
  "GITLAB_URL @ ''/api/v4/projects/'' @ project_id @ rest \<noteq> ''https://gitlab.com/next''"
  by (simp add: GITLAB_URL_def)

lemma request_empty_page_with_next:
  assumes "url \<noteq> ''https://gitlab.com/next''"
  shows "make_api_request_with_retry srv_empty_then_item url params initial_net =
      (Inr empty_page_with_next, initial_net\<lparr>requests_made := 1\<rparr>)"
  using assms
  by (simp add: make_api_request_with_retry_def RETRY_ATTEMPTS_def upt_rec srv_empty_then_item_def
        attempt_body_def update_rate_limit_info_def empty_page_with_next_def
        raise_for_status_def initial_net_def)

lemma next_url_empty_page_with_next:
  "next_url empty_page_with_next = Some ''https://gitlab.com/next''"
  by (simp add: next_url_def empty_page_with_next_def slice_def)

text \<open>
  Claim C4, as the code has it. The loop tests \<^verbatim>\<open>if not data: break\<close> before it
  reads the \<^verbatim>\<open>Link\<close> header, so an empty page ends the sequence whatever its
  headers say: with or without a \<^verbatim>\<open>rel="next"\<close> link, the items gathered so far
  are returned and no further request is made.
\<close>

theorem empty_page_terminates:
  assumes "url \<noteq> []"
    and "make_api_request_with_retry srv url params st = (Inr response, st')"
    and "json response = []"
  shows "pages_loop srv (Some url) params items st = Some (Inr items, st')"
  using assms by (rule pages_loop_empty_page)

theorem empty_page_terminates_witness:
  "''https://gitlab.com/jobs'' \<noteq> [] \<and>
   make_api_request_with_retry srv_empty_then_item ''https://gitlab.com/jobs'' None initial_net =
     (Inr empty_page_with_next, initial_net\<lparr>requests_made := 1\<rparr>) \<and>
   json empty_page_with_next = [] \<and>
   pages_loop srv_empty_then_item (Some ''https://gitlab.com/jobs'') None lint_102 initial_net =
     Some (Inr lint_102, initial_net\<lparr>requests_made := 1\<rparr>)"
proof -
  have h1: "''https://gitlab.com/jobs'' \<noteq> []" by simp
  have h2: "make_api_request_with_retry srv_empty_then_item ''https://gitlab.com/jobs'' None
      initial_net = (Inr empty_page_with_next, initial_net\<lparr>requests_made := 1\<rparr>)"
    by (rule request_empty_page_with_next) simp
  have h3: "json empty_page_with_next = []" by (simp add: empty_page_with_next_def)
  from empty_page_terminates [where srv = srv_empty_then_item and items = lint_102, OF h1 h2 h3]
    h1 h2 h3
  show ?thesis by blast
qed

text \<open>
  The claim as stated fails. The first page of the jobs of pipeline 7 is empty and names a
  next page, on which the server has a job. \<^verbatim>\<open>fetch_pipeline_jobs\<close> returns the empty
  list after one request: the next link is never followed.
\<close>

theorem empty_page_with_next_counterexample:
  "fetch_pipeline_jobs srv_empty_then_item ''64459882'' 7 False initial_net =
     Some (Inr [], initial_net\<lparr>requests_made := 1\<rparr>) \<and>
   next_url empty_page_with_next = Some ''https://gitlab.com/next'' \<and>
   srv_empty_then_item 1 ''https://gitlab.com/next'' None = Responds (ok_page lint_102)"
proof -
  have e: "json empty_page_with_next = []" by (simp add: empty_page_with_next_def)
  have "fetch_pipeline_jobs srv_empty_then_item ''64459882'' 7 False initial_net =
     Some (Inr [], initial_net\<lparr>requests_made := 1\<rparr>)"
    unfolding fetch_pipeline_jobs_def
    by (rule pages_loop_empty_page [OF gitlab_url_nonempty
          request_empty_page_with_next [OF jobs_url_not_next] e])
  moreover have "srv_empty_then_item 1 ''https://gitlab.com/next'' None = Responds (ok_page lint_102)"
    by (simp add: srv_empty_then_item_def)
  ultimately show ?thesis using next_url_empty_page_with_next by simp
qed


section \<open>The dispatcher covers every pipeline once\<close>

lemma collect_all_results: "collect (map Inr rs) acc = Inr (acc @ rs)"
  by (induction rs arbitrary: acc) simp_all

text \<open>The dictionary a task returns for what the collection of the jobs gave.\<close>

lemma fetch_pipeline_jobs_with_metadata_result:
  assumes "fetch_pipeline_jobs srv project_id (p_id pipeline) True st = Some (out, st')"
    and "\<forall>e. out = Inl e \<longrightarrow> is_request_exception e"
  shows "fetch_pipeline_jobs_with_metadata srv project_id pipeline st =
     Some (Inr (case out of
                  Inr jobs \<Rightarrow> \<lparr>r_pipeline_id = p_id pipeline, r_pipeline = pipeline,
                                r_jobs = jobs, r_success = True, r_error = None\<rparr>
                | Inl e \<Rightarrow> \<lparr>r_pipeline_id = p_id pipeline, r_pipeline = pipeline,
                             r_jobs = [], r_success = False, r_error = Some e\<rparr>), st')"
  using assms by (cases out) (simp_all add: fetch_pipeline_jobs_with_metadata_def)

lemma mset_map_nth_perm:
  assumes "mset order = mset [0..<length xs]"
  shows "mset (map ((!) xs) order) = mset xs"
proof -
  have "mset (map ((!) xs) order) = image_mset ((!) xs) (mset order)" by simp
  also have "\<dots> = image_mset ((!) xs) (mset [0..<length xs])" by (simp only: assms)
  also have "\<dots> = mset (map ((!) xs) [0..<length xs])" by simp
  also have "\<dots> = mset xs" by (simp only: map_nth)
  finally show ?thesis .
qed

text \<open>
  Claim C6. Let the order of completion be any permutation of the tasks, and let the
  collection of every pipeline's jobs end, with its jobs or with a
  \<^verbatim>\<open>RequestException\<close>. Then the dispatcher returns one result for each element of
  \<^verbatim>\<open>pipelines\<close>, none missing and none twice; the result of a pipeline holds its
  jobs, or the failure with its pipeline id and error, and is determined by the requests
  of that pipeline alone, whatever becomes of the others.
\<close>

theorem dispatch_covers_every_pipeline:
  assumes perm: "mset order = mset [0..<length pipelines]"
    and completes: "\<forall>i < length pipelines. \<exists>out st'.
           fetch_pipeline_jobs (srvs i) project_id (p_id (pipelines ! i)) True initial_net =
             Some (out, st') \<and>
           (\<forall>e. out = Inl e \<longrightarrow> is_request_exception e)"
  shows "\<exists>results.
           dispatch srvs project_id pipelines order = Some (Inr results) \<and>
           length results = length pipelines \<and>
           mset (map r_pipeline results) = mset pipelines \<and>
           (\<forall>k < length results. \<exists>out st'.
              fetch_pipeline_jobs (srvs (order ! k)) project_id (p_id (pipelines ! (order ! k)))
                  True initial_net = Some (out, st') \<and>
              results ! k =
                (case out of
                   Inr jobs \<Rightarrow> \<lparr>r_pipeline_id = p_id (pipelines ! (order ! k)),
                                 r_pipeline = pipelines ! (order ! k),
                                 r_jobs = jobs, r_success = True, r_error = None\<rparr>
                 | Inl e \<Rightarrow> \<lparr>r_pipeline_id = p_id (pipelines ! (order ! k)),
                              r_pipeline = pipelines ! (order ! k),
                              r_jobs = [], r_success = False, r_error = Some e\<rparr>))"
proof -
  let ?fetch = "\<lambda>i. fetch_pipeline_jobs (srvs i) project_id (p_id (pipelines ! i)) True initial_net"
  let ?res = "\<lambda>i. case fst (the (?fetch i)) of
                   Inr jobs \<Rightarrow> \<lparr>r_pipeline_id = p_id (pipelines ! i), r_pipeline = pipelines ! i,
                                 r_jobs = jobs, r_success = True, r_error = None\<rparr>
                 | Inl e \<Rightarrow> \<lparr>r_pipeline_id = p_id (pipelines ! i), r_pipeline = pipelines ! i,
                              r_jobs = [], r_success = False, r_error = Some e\<rparr>"
  have len: "length order = length pipelines"
    using mset_eq_length [OF perm] by simp
  have idx: "i < length pipelines" if "i \<in> set order" for i
    using that mset_eq_setD [OF perm] by simp
  have t: "task srvs project_id pipelines i = Some (Inr (?res i))" if "i < length pipelines" for i
  proof -
    from completes that obtain out st' where f: "?fetch i = Some (out, st')"
      and e: "\<forall>e. out = Inl e \<longrightarrow> is_request_exception e" by blast
    from fetch_pipeline_jobs_with_metadata_result [OF f e] f
    show ?thesis by (simp add: task_def)
  qed
  have futures: "map (task srvs project_id pipelines) order = map (\<lambda>i. Some (Inr (?res i))) order"
    by (rule map_cong [OF refl]) (simp add: t idx)
  have d: "dispatch srvs project_id pipelines order = Some (Inr (map ?res order))"
    unfolding dispatch_def Let_def futures
    using collect_all_results [of "map ?res order" "[]"]
    by (auto simp: comp_def)
  have rp: "r_pipeline (?res i) = pipelines ! i" for i
    by (cases "fst (the (?fetch i))") simp_all
  have "map r_pipeline (map ?res order) = map ((!) pipelines) order"
    by (rule nth_equalityI) (simp_all add: rp)
  then have m: "mset (map r_pipeline (map ?res order)) = mset pipelines"
    by (simp only: mset_map_nth_perm [OF perm])
  have k: "\<exists>out st'. ?fetch (order ! k) = Some (out, st') \<and>
      map ?res order ! k =
        (case out of
           Inr jobs \<Rightarrow> \<lparr>r_pipeline_id = p_id (pipelines ! (order ! k)),
                         r_pipeline = pipelines ! (order ! k),
                         r_jobs = jobs, r_success = True, r_error = None\<rparr>
         | Inl e \<Rightarrow> \<lparr>r_pipeline_id = p_id (pipelines ! (order ! k)),
                      r_pipeline = pipelines ! (order ! k),
                      r_jobs = [], r_success = False, r_error = Some e\<rparr>)"
    if "k < length (map ?res order)" for k
  proof -
    from that have kl: "k < length order" by simp
    then have "order ! k < length pipelines" by (intro idx nth_mem)
    with completes obtain out st' where f: "?fetch (order ! k) = Some (out, st')" by blast
    with kl show ?thesis by simp
  qed
  from d len m k show ?thesis
    by (intro exI [of _ "map ?res order"] conjI allI impI) simp_all
qed


lemma request_always_404:
  "make_api_request_with_retry srv_always_404 url params initial_net =
     (Inl (HTTPError 404),
      \<lparr>requests_made = 3, sleeps = [1, 2], rate_limit_remaining = None, rate_limit_reset = None\<rparr>)"
  by (simp add: make_api_request_with_retry_def RETRY_ATTEMPTS_def RETRY_BACKOFF_def upt_rec
       srv_always_404_def initial_net_def attempt_body_def update_rate_limit_info_def
       status_page_def sleep_def raise_for_status_def except_clause_def)

lemma request_one_page:
  "make_api_request_with_retry (srv_one_page jobs) url params initial_net =
     (Inr (ok_page jobs), initial_net\<lparr>requests_made := 1\<rparr>)"
  by (simp add: make_api_request_with_retry_def RETRY_ATTEMPTS_def upt_rec
       srv_one_page_def initial_net_def attempt_body_def update_rate_limit_info_def
       ok_page_def raise_for_status_def)

lemma fetch_jobs_always_404:
  "fetch_pipeline_jobs srv_always_404 project_id pipeline_id True initial_net =
     Some (Inl (HTTPError 404),
      \<lparr>requests_made = 3, sleeps = [1, 2], rate_limit_remaining = None, rate_limit_reset = None\<rparr>)"
  unfolding fetch_pipeline_jobs_def
  by (rule pages_loop_error [OF gitlab_url_nonempty request_always_404])

lemma fetch_jobs_one_page:
  "fetch_pipeline_jobs (srv_one_page lint_102) project_id pipeline_id True initial_net =
     Some (Inr lint_102, initial_net\<lparr>requests_made := 1\<rparr>)"
proof -
  have a: "json (ok_page lint_102) \<noteq> []" by (simp add: ok_page_def lint_102_def)
  have b: "next_url (ok_page lint_102) = None" by (simp add: next_url_def ok_page_def)
  have c: "[] @ json (ok_page lint_102) = lint_102" by (simp add: ok_page_def)
  show ?thesis
    unfolding fetch_pipeline_jobs_def
    using pages_loop_last_page [where items = "[]", OF gitlab_url_nonempty request_one_page a b]
    by (simp only: c)
qed

theorem dispatch_covers_every_pipeline_witness:
  "mset [1, 0] = mset [0..<length [pipeline_101, pipeline_102]] \<and>
   dispatch example_srvs ''64459882'' [pipeline_101, pipeline_102] [1, 0] =
     Some (Inr [\<lparr>r_pipeline_id = 102, r_pipeline = pipeline_102, r_jobs = lint_102,
                  r_success = True, r_error = None\<rparr>,
                \<lparr>r_pipeline_id = 101, r_pipeline = pipeline_101, r_jobs = [],
                  r_success = False, r_error = Some (HTTPError 404)\<rparr>])"
proof -
  let ?ps = "[pipeline_101, pipeline_102]"
  have perm: "mset [1, 0] = mset [0..<length ?ps]" by (simp add: upt_rec)
  have f0: "fetch_pipeline_jobs (example_srvs 0) ''64459882'' (p_id (?ps ! 0)) True initial_net =
      Some (Inl (HTTPError 404),
        \<lparr>requests_made = 3, sleeps = [1, 2], rate_limit_remaining = None, rate_limit_reset = None\<rparr>)"
    by (simp add: example_srvs_def fetch_jobs_always_404)
  have f1: "fetch_pipeline_jobs (example_srvs 1) ''64459882'' (p_id (?ps ! 1)) True initial_net =
      Some (Inr lint_102, initial_net\<lparr>requests_made := 1\<rparr>)"
    by (simp add: example_srvs_def fetch_jobs_one_page)
  have completes: "\<forall>i < length ?ps. \<exists>out st'.
           fetch_pipeline_jobs (example_srvs i) ''64459882'' (p_id (?ps ! i)) True initial_net =
             Some (out, st') \<and>
           (\<forall>e. out = Inl e \<longrightarrow> is_request_exception e)"
  proof (intro allI impI)
    fix i assume "i < length ?ps"
    then have "i = 0 \<or> i = 1" by auto
    then show "\<exists>out st'.
           fetch_pipeline_jobs (example_srvs i) ''64459882'' (p_id (?ps ! i)) True initial_net =
             Some (out, st') \<and>
           (\<forall>e. out = Inl e \<longrightarrow> is_request_exception e)"
    proof
      assume "i = 0"
      with f0 show ?thesis by simp
    next
      assume "i = 1"
      with f1 show ?thesis by simp
    qed
  qed
  from dispatch_covers_every_pipeline [where srvs = example_srvs and project_id = "''64459882''",
      OF perm completes]
  obtain results where d: "dispatch example_srvs ''64459882'' ?ps [1, 0] = Some (Inr results)"
    and len: "length results = length ?ps"
    and nth: "\<And>k. k < length results \<Longrightarrow> \<exists>out st'.
              fetch_pipeline_jobs (example_srvs ([1, 0] ! k)) ''64459882''
                  (p_id (?ps ! ([1, 0] ! k))) True initial_net = Some (out, st') \<and>
              results ! k =
                (case out of
                   Inr jobs \<Rightarrow> \<lparr>r_pipeline_id = p_id (?ps ! ([1, 0] ! k)),
                                 r_pipeline = ?ps ! ([1, 0] ! k),
                                 r_jobs = jobs, r_success = True, r_error = None\<rparr>
                 | Inl e \<Rightarrow> \<lparr>r_pipeline_id = p_id (?ps ! ([1, 0] ! k)),
                              r_pipeline = ?ps ! ([1, 0] ! k),
                              r_jobs = [], r_success = False, r_error = Some e\<rparr>)"
    by blast
  from len have l2: "length results = 2" by simp
  from nth [of 0] l2 f1 have r0: "results ! 0 =
      \<lparr>r_pipeline_id = 102, r_pipeline = pipeline_102, r_jobs = lint_102,
        r_success = True, r_error = None\<rparr>"
    by (auto simp: pipeline_102_def)
  from nth [of 1] l2 f0 have r1: "results ! 1 =
      \<lparr>r_pipeline_id = 101, r_pipeline = pipeline_101, r_jobs = [],
        r_success = False, r_error = Some (HTTPError 404)\<rparr>"
    by (auto simp: pipeline_101_def)
  from l2 obtain a b where ab: "results = [a, b]"
    by (cases results; cases "tl results") auto
  with r0 r1 have "results =
     [\<lparr>r_pipeline_id = 102, r_pipeline = pipeline_102, r_jobs = lint_102,
        r_success = True, r_error = None\<rparr>,
      \<lparr>r_pipeline_id = 101, r_pipeline = pipeline_101, r_jobs = [],
        r_success = False, r_error = Some (HTTPError 404)\<rparr>]" by simp
  with d perm show ?thesis by (simp only:)
qed


section \<open>Aggregation does not depend on the order of the results\<close>

lemma dd_update_distinct:
  "distinct (map fst m) \<Longrightarrow> distinct (map fst (dd_update d k f m))"
  by (induction m) (auto simp: dd_update_keys)

lemma tally_of_dd_update:
  "tally_of (dd_update default_stat name f stats) =
     ((\<lambda>n c. if n = name then counter_of c (f (dd_get default_stat stats name))
              else fst (tally_of stats) n c),
      insert name (snd (tally_of stats)))"
  by (auto simp: tally_of_def dd_get_update dd_update_keys fun_eq_iff)

lemma counter_of_apply_branch:
  "counter_of c (dd_get default_stat (job_stats (apply_branch b pipeline pid name n statuses
      (stats_update name (\<lambda>s. s\<lparr>total_retry_attempts := total_retry_attempts s + (n - 1)\<rparr>)
        (stats_update name (\<lambda>s. s\<lparr>total_job_groups := total_job_groups s + 1\<rparr>) st)))) name) =
   counter_of c (dd_get default_stat (job_stats st) name) + branch_delta b n c"
  by (cases b; cases c) (simp_all add: Let_def stat_at_stats_update)


lemma other_name_apply_branch:
  "n \<noteq> name \<Longrightarrow>
   dd_get default_stat (job_stats (apply_branch b pipeline pid name k statuses st)) n =
   dd_get default_stat (job_stats st) n"
  by (cases b) (simp_all add: Let_def stat_at_stats_update)

lemma keys_stats_update:
  "fst ` set (job_stats (stats_update name f st)) = insert name (fst ` set (job_stats st))"
  by (simp add: stats_update_def dd_update_keys)

lemma keys_apply_branch:
  "fst ` set (job_stats (apply_branch b pipeline pid name k statuses st)) =
     insert name (fst ` set (job_stats st))"
  by (cases b) (simp_all add: Let_def keys_stats_update)

lemma distinct_stats_update:
  "distinct (map fst (job_stats st)) \<Longrightarrow> distinct (map fst (job_stats (stats_update name f st)))"
  by (simp add: stats_update_def dd_update_distinct)

lemma distinct_apply_branch:
  "distinct (map fst (job_stats st)) \<Longrightarrow>
   distinct (map fst (job_stats (apply_branch b pipeline pid name k statuses st)))"
  by (cases b) (simp_all add: Let_def distinct_stats_update)

lemma tally_of_process_group:
  "tally_of (job_stats (process_group pipeline pid st g)) = add_group g (tally_of (job_stats st))"
proof -
  obtain name jl where g: "g = (name, jl)" by (cases g)
  let ?n = "int (length (sort_key job_id jl))"
  let ?st' = "process_group pipeline pid st (name, jl)"
  have v: "counter_of c (dd_get default_stat (job_stats ?st') n) =
      (if n = name
       then counter_of c (dd_get default_stat (job_stats st) name) +
              branch_delta (classify (sort_key job_id jl)) ?n c
       else counter_of c (dd_get default_stat (job_stats st) n))" for n c
    unfolding process_group_def Let_def fst_conv snd_conv
    by (simp add: counter_of_apply_branch other_name_apply_branch stat_at_stats_update
          del: apply_branch.simps)
  have k: "fst ` set (job_stats ?st') = insert name (fst ` set (job_stats st))"
    unfolding process_group_def Let_def fst_conv snd_conv
    by (simp add: keys_apply_branch keys_stats_update del: apply_branch.simps)
  show ?thesis
    unfolding g tally_of_def add_group_def Let_def fst_conv snd_conv k
    by (simp add: fun_eq_iff v del: length_sort)
qed

lemma distinct_process_group:
  "distinct (map fst (job_stats st)) \<Longrightarrow>
   distinct (map fst (job_stats (process_group pipeline pid st g)))"
  unfolding process_group_def Let_def
  by (intro distinct_apply_branch distinct_stats_update)

lemma tally_of_groups:
  "tally_of (job_stats (foldl (process_group pipeline pid) st gs)) =
     fold add_group gs (tally_of (job_stats st))"
  by (induction gs arbitrary: st) (simp_all add: tally_of_process_group)

lemma distinct_groups:
  "distinct (map fst (job_stats st)) \<Longrightarrow>
   distinct (map fst (job_stats (foldl (process_group pipeline pid) st gs)))"
  by (induction gs arbitrary: st) (simp_all add: distinct_process_group)

lemma tally_of_analyze_result:
  "tally_of (job_stats (analyze_result st r)) = add_result r (tally_of (job_stats st))"
  by (simp add: analyze_result_def add_result_def tally_of_groups)

lemma distinct_analyze_result:
  "distinct (map fst (job_stats st)) \<Longrightarrow> distinct (map fst (job_stats (analyze_result st r)))"
  by (simp add: analyze_result_def distinct_groups)

lemma tally_of_results:
  "tally_of (job_stats (foldl analyze_result st rs)) = fold add_result rs (tally_of (job_stats st))"
  by (induction rs arbitrary: st) (simp_all add: tally_of_analyze_result)

lemma distinct_results:
  "distinct (map fst (job_stats st)) \<Longrightarrow>
   distinct (map fst (job_stats (foldl analyze_result st rs)))"
  by (induction rs arbitrary: st) (simp_all add: distinct_analyze_result)

lemma add_group_commute: "add_group g \<circ> add_group h = add_group h \<circ> add_group g"
  by (auto simp: add_group_def Let_def fun_eq_iff)

lemma fold_add_group_commute:
  "fold add_group gs \<circ> fold add_group hs = fold add_group hs \<circ> fold add_group gs"
proof -
  have "add_group h \<circ> fold add_group gs = fold add_group gs \<circ> add_group h" for h
    by (rule fold_commute) (rule add_group_commute)
  then have "fold add_group gs \<circ> add_group h = add_group h \<circ> fold add_group gs" for h
    by simp
  then show ?thesis by (intro fold_commute)
qed

lemma add_result_commute: "add_result r \<circ> add_result r' = add_result r' \<circ> add_result r"
proof -
  have "add_result r = fold add_group (if r_success r then group_jobs_by_name (r_jobs r) else [])" for r
    by (auto simp: add_result_def fun_eq_iff)
  then show ?thesis by (simp only: fold_add_group_commute)
qed

lemma tally_permutation:
  assumes "mset rs = mset rs'"
  shows "tally_of (job_stats (analyze_results rs)) = tally_of (job_stats (analyze_results rs'))"
proof -
  have "fold add_result rs = fold add_result rs'"
    using assms by (intro fold_multiset_equiv add_result_commute)
  then show ?thesis by (simp only: analyze_results_def tally_of_results)
qed


lemma counts_from_tally:
  "map_option counts (map_of stats name) =
     (let t = tally_of stats
      in if name \<in> snd t
         then Some (fst t name Total_job_groups, fst t name Flakey_occurrences,
                    fst t name Legitimate_failures, fst t name Clean_successes,
                    fst t name Other_statuses, fst t name Total_retry_attempts,
                    fst t name Flakey_retry_attempts, fst t name Legitimate_retry_attempts)
         else None)"
proof (cases "map_of stats name")
  case None
  then have "name \<notin> fst ` set stats" by (simp add: map_of_eq_None_iff)
  with None show ?thesis by (simp add: tally_of_def)
next
  case (Some v)
  then have "(name, v) \<in> set stats" by (rule map_of_SomeD)
  then have "name \<in> fst ` set stats" by force
  with Some show ?thesis by (simp add: tally_of_def dd_get_def counts_def)
qed

lemma total_from_tally:
  assumes "distinct (map fst stats)"
  shows "total_of (counter_of c) stats = (\<Sum>k \<in> snd (tally_of stats). fst (tally_of stats) k c)"
proof -
  have "dd_get default_stat stats (fst kv) = snd kv" if "kv \<in> set stats" for kv
  proof -
    from that have "(fst kv, snd kv) \<in> set stats" by simp
    with assms have "map_of stats (fst kv) = Some (snd kv)" by (rule map_of_is_SomeI)
    then show ?thesis by (simp add: dd_get_def)
  qed
  then have "map (\<lambda>kv. counter_of c (snd kv)) stats =
      map (\<lambda>k. counter_of c (dd_get default_stat stats k)) (map fst stats)"
    by simp
  then have "total_of (counter_of c) stats =
      sum_list (map (\<lambda>k. counter_of c (dd_get default_stat stats k)) (map fst stats))"
    by (simp only: total_of_def)
  also have "\<dots> = (\<Sum>k \<in> set (map fst stats). counter_of c (dd_get default_stat stats k))"
    using assms by (rule sum_list_distinct_conv_sum_set)
  finally show ?thesis by (simp add: tally_of_def)
qed

lemma totals_from_tally:
  assumes "distinct (map fst stats)" and "distinct (map fst stats')"
    and "tally_of stats = tally_of stats'"
  shows "total_of (counter_of c) stats = total_of (counter_of c) stats'"
  by (simp only: total_from_tally assms)

lemma distinct_analyze_results: "distinct (map fst (job_stats (analyze_results rs)))"
  unfolding analyze_results_def
  by (rule distinct_results) (simp add: initial_analysis_def)

text \<open>
  Claim C5. For two arrival orders of the same fetch results, the analysis ends with the
  same job names, the same eight counters under every name, the same eight sums over all
  names, and the same two rates (or the same division by zero when no group was seen).
\<close>

theorem aggregation_order_independent:
  assumes "mset rs = mset rs'"
  shows "(\<forall>name. map_option counts (map_of (job_stats (analyze_results rs)) name) =
                  map_option counts (map_of (job_stats (analyze_results rs')) name)) \<and>
         totals (job_stats (analyze_results rs)) = totals (job_stats (analyze_results rs')) \<and>
         overall_rates (job_stats (analyze_results rs)) =
           overall_rates (job_stats (analyze_results rs'))"
proof -
  let ?s = "job_stats (analyze_results rs)" and ?s' = "job_stats (analyze_results rs')"
  have t: "tally_of ?s = tally_of ?s'" using assms by (rule tally_permutation)
  have c: "map_option counts (map_of ?s name) = map_option counts (map_of ?s' name)" for name
    by (simp only: counts_from_tally t)
  have tot: "total_of (counter_of c) ?s = total_of (counter_of c) ?s'" for c
    by (rule totals_from_tally [OF distinct_analyze_results distinct_analyze_results t])
  have f: "total_of total_job_groups ?s = total_of total_job_groups ?s'"
    "total_of flakey_occurrences ?s = total_of flakey_occurrences ?s'"
    "total_of legitimate_failures ?s = total_of legitimate_failures ?s'"
    "total_of clean_successes ?s = total_of clean_successes ?s'"
    "total_of other_statuses ?s = total_of other_statuses ?s'"
    "total_of total_retry_attempts ?s = total_of total_retry_attempts ?s'"
    "total_of flakey_retry_attempts ?s = total_of flakey_retry_attempts ?s'"
    "total_of legitimate_retry_attempts ?s = total_of legitimate_retry_attempts ?s'"
    using tot [of Total_job_groups] tot [of Flakey_occurrences] tot [of Legitimate_failures]
      tot [of Clean_successes] tot [of Other_statuses] tot [of Total_retry_attempts]
      tot [of Flakey_retry_attempts] tot [of Legitimate_retry_attempts]
    by (simp_all only: counter_of.simps)
  have "totals ?s = totals ?s'" by (simp only: totals_def f)
  moreover have "overall_rates ?s = overall_rates ?s'" by (simp only: overall_rates_def f)
  ultimately show ?thesis using c by blast
qed

lemma analysis_101_102:
  "job_stats (analyze_results [result_101, result_102]) =
     [(''unit-tests'', \<lparr>total_job_groups = 1, flakey_occurrences = 1, legitimate_failures = 0,
         clean_successes = 0, other_statuses = 0, total_retry_attempts = 2,
         flakey_retry_attempts = 2, legitimate_retry_attempts = 0, flakey_pipelines = [101]\<rparr>),
      (''lint'', \<lparr>total_job_groups = 1, flakey_occurrences = 0, legitimate_failures = 1,
         clean_successes = 0, other_statuses = 0, total_retry_attempts = 0,
         flakey_retry_attempts = 0, legitimate_retry_attempts = 0, flakey_pipelines = []\<rparr>)]"
  by (simp add: analyze_results_def analyze_result_def result_101_def result_102_def
        initial_analysis_def group_jobs_by_name_def unit_tests_101_def lint_102_def
        process_group_def classify_def stats_update_def default_stat_def log_append_def Let_def)

theorem aggregation_order_independent_witness:
  "mset [result_101, result_102] = mset [result_102, result_101] \<and>
   totals (job_stats (analyze_results [result_102, result_101])) = (2, 1, 1, 0, 0, 2, 2, 0) \<and>
   overall_rates (job_stats (analyze_results [result_102, result_101])) = Inr (50, 0)"
proof -
  have h: "mset [result_101, result_102] = mset [result_102, result_101]" by simp
  have t: "totals (job_stats (analyze_results [result_101, result_102])) = (2, 1, 1, 0, 0, 2, 2, 0)"
    by (simp add: analysis_101_102 totals_def total_of_def)
  have r: "overall_rates (job_stats (analyze_results [result_101, result_102])) = Inr (50, 0)"
    by (simp add: analysis_101_102 overall_rates_def total_of_def)
  from aggregation_order_independent [OF h] t r h show ?thesis by (simp only:)
qed


section \<open>Pipelines whose fetch failed\<close>

lemma apply_branch_same_core:
  assumes "job_stats st = job_stats st'" and "flakey_details st = flakey_details st'"
  shows "job_stats (apply_branch b pipeline pid name n statuses st) =
           job_stats (apply_branch b pipeline pid name n statuses st') \<and>
         flakey_details (apply_branch b pipeline pid name n statuses st) =
           flakey_details (apply_branch b pipeline pid name n statuses st')"
  using assms by (cases b) (simp_all add: Let_def stats_update_def log_append_def)

lemma process_group_same_core:
  assumes "job_stats st = job_stats st'" and "flakey_details st = flakey_details st'"
  shows "job_stats (process_group pipeline pid st g) = job_stats (process_group pipeline pid st' g) \<and>
         flakey_details (process_group pipeline pid st g) =
           flakey_details (process_group pipeline pid st' g)"
  unfolding process_group_def Let_def
  by (rule apply_branch_same_core) (simp_all add: stats_update_def assms)

lemma groups_same_core:
  assumes "job_stats st = job_stats st'" and "flakey_details st = flakey_details st'"
  shows "job_stats (foldl (process_group pipeline pid) st gs) =
           job_stats (foldl (process_group pipeline pid) st' gs) \<and>
         flakey_details (foldl (process_group pipeline pid) st gs) =
           flakey_details (foldl (process_group pipeline pid) st' gs)"
  using assms
proof (induction gs arbitrary: st st')
  case Nil
  then show ?case by (simp only: foldl_Nil)
next
  case (Cons g gs)
  from process_group_same_core [OF Cons.prems]
  have a: "job_stats (process_group pipeline pid st g) = job_stats (process_group pipeline pid st' g)"
    and b: "flakey_details (process_group pipeline pid st g) =
           flakey_details (process_group pipeline pid st' g)" by blast+
  show ?case unfolding foldl_Cons by (rule Cons.IH [OF a b])
qed

lemma analyze_result_same_core:
  assumes "job_stats st = job_stats st'" and "flakey_details st = flakey_details st'"
  shows "job_stats (analyze_result st r) =
           job_stats (if r_success r then analyze_result st' r else st') \<and>
         flakey_details (analyze_result st r) =
           flakey_details (if r_success r then analyze_result st' r else st')"
proof (cases "r_success r")
  case True
  then show ?thesis
    using groups_same_core [OF assms] by (simp only: analyze_result_def if_True not_True_eq_False if_False)
next
  case False
  then show ?thesis
    by (simp only: analyze_result_def if_False not_False_eq_True if_True
          job_stats_log_append flakey_details_log_append assms)
qed

lemma results_same_core:
  assumes "job_stats st = job_stats st'" and "flakey_details st = flakey_details st'"
  shows "job_stats (foldl analyze_result st rs) =
           job_stats (foldl analyze_result st' (filter r_success rs)) \<and>
         flakey_details (foldl analyze_result st rs) =
           flakey_details (foldl analyze_result st' (filter r_success rs))"
  using assms
proof (induction rs arbitrary: st st')
  case Nil
  then show ?case by (simp only: filter.simps foldl_Nil)
next
  case (Cons r rs)
  from analyze_result_same_core [OF Cons.prems]
  have a: "job_stats (analyze_result st r) =
           job_stats (if r_success r then analyze_result st' r else st')"
    and b: "flakey_details (analyze_result st r) =
           flakey_details (if r_success r then analyze_result st' r else st')" by blast+
  have f: "foldl analyze_result st' (filter r_success (r # rs)) =
      foldl analyze_result (if r_success r then analyze_result st' r else st') (filter r_success rs)"
    by (cases "r_success r") simp_all
  show ?case unfolding foldl_Cons f by (rule Cons.IH [OF a b])
qed

lemma errors_apply_branch:
  "filter is_error_fetching (log (apply_branch b pipeline pid name n statuses st)) =
   filter is_error_fetching (log st)"
  by (cases b) (simp_all add: Let_def stats_update_def log_append_def)

lemma errors_process_group:
  "filter is_error_fetching (log (process_group pipeline pid st g)) =
   filter is_error_fetching (log st)"
  by (simp add: process_group_def Let_def errors_apply_branch stats_update_def
        del: apply_branch.simps)

lemma errors_groups:
  "filter is_error_fetching (log (foldl (process_group pipeline pid) st gs)) =
   filter is_error_fetching (log st)"
  by (induction gs arbitrary: st) (simp_all add: errors_process_group)

lemma errors_analyze_result:
  "filter is_error_fetching (log (analyze_result st r)) =
   filter is_error_fetching (log st) @
     (if r_success r then [] else [Log_error_fetching (r_pipeline_id r) (r_error r)])"
  by (simp add: analyze_result_def errors_groups log_append_def)

lemma errors_results:
  "filter is_error_fetching (log (foldl analyze_result st rs)) =
   filter is_error_fetching (log st) @
     map (\<lambda>r. Log_error_fetching (r_pipeline_id r) (r_error r)) (filter (\<lambda>r. \<not> r_success r) rs)"
  by (induction rs arbitrary: st) (simp_all add: errors_analyze_result)

text \<open>
  Claim C7, as the code has it. A pipeline whose fetch failed is logged as an error with
  its pipeline id and cause, in the order of arrival; its result is skipped by the
  analysis, which goes on with the other results; the pair that is returned,
  \<^verbatim>\<open>job_stats\<close> and \<^verbatim>\<open>flakey_details\<close>, is the one that the successful results alone
  give. The failure is in the log and not in the returned value.
\<close>

theorem failed_pipelines_logged_and_skipped:
  "filter is_error_fetching (log (analyze_results rs)) =
     map (\<lambda>r. Log_error_fetching (r_pipeline_id r) (r_error r)) (filter (\<lambda>r. \<not> r_success r) rs) \<and>
   job_stats (analyze_results rs) = job_stats (analyze_results (filter r_success rs)) \<and>
   flakey_details (analyze_results rs) = flakey_details (analyze_results (filter r_success rs)) \<and>
   analysis_return rs = analysis_return (filter r_success rs)"
proof -
  have e: "filter is_error_fetching (log (analyze_results rs)) =
     map (\<lambda>r. Log_error_fetching (r_pipeline_id r) (r_error r)) (filter (\<lambda>r. \<not> r_success r) rs)"
    by (simp add: analyze_results_def errors_results initial_analysis_def)
  from results_same_core [OF refl refl, of initial_analysis rs]
  have c: "job_stats (analyze_results rs) = job_stats (analyze_results (filter r_success rs))"
    "flakey_details (analyze_results rs) = flakey_details (analyze_results (filter r_success rs))"
    by (simp_all only: analyze_results_def)
  then have "analysis_return rs = analysis_return (filter r_success rs)"
    by (simp add: analysis_return_def Let_def)
  with e c show ?thesis by (intro conjI)
qed

theorem failed_pipelines_logged_and_skipped_witness:
  "filter is_error_fetching (log (analyze_results [result_101, failed_result_103, result_102])) =
     [Log_error_fetching 103 (Some (HTTPError 404))] \<and>
   analysis_return [result_101, failed_result_103, result_102] =
     analysis_return [result_101, result_102]"
  using failed_pipelines_logged_and_skipped [of "[result_101, failed_result_103, result_102]"]
  by (simp add: result_101_def result_102_def failed_result_103_def)

text \<open>
  The claim as stated fails: the value returned for a batch whose only pipeline failed is
  the value returned for an empty batch, so nothing in it lists the skipped pipeline.
\<close>

theorem skipped_pipeline_not_returned_counterexample:
  "analysis_return [failed_result_103] = ([], []) \<and> analysis_return [] = ([], [])"
  by (simp add: analysis_return_def analyze_results_def analyze_result_def failed_result_103_def
        initial_analysis_def log_append_def)

end
